theory Spec2Isabelle
  imports Complex_Main "HOL-Library.Multiset" "HOL-Library.Product_Lexorder"
begin

section \<open>JavaScript values used by the ingestion pipeline\<close>

text \<open>
  Strings are lists of code units; only code units below 256 are representable.
  A row object of the CSV parser is a finite map from header names to strings: a column
  that the record does not have reads as \<open>undefined\<close>, here \<open>None\<close>.
\<close>

type_synonym row = "string \<rightharpoonup> string"

text \<open>White space and line terminators of ECMAScript that fit in one code unit below 256.\<close>

definition is_ws :: "char \<Rightarrow> bool" where
  "is_ws c = (c \<in> set [CHR 0x09, CHR 0x0A, CHR 0x0B, CHR 0x0C, CHR 0x0D, CHR 0x20, CHR 0xA0])"

text \<open>\<^verbatim>\<open>String.prototype.trim\<close>.\<close>

definition js_trim :: "string \<Rightarrow> string" where
  "js_trim s = rev (dropWhile is_ws (rev (dropWhile is_ws s)))"

text \<open>Truthiness of a value that is \<open>undefined\<close> or a string.\<close>

definition truthy :: "string option \<Rightarrow> bool" where
  "truthy v = (case v of None \<Rightarrow> False | Some s \<Rightarrow> s \<noteq> [])"

text \<open>\<^verbatim>\<open>ToString\<close> of such a value, as a template literal renders it.\<close>

definition to_string :: "string option \<Rightarrow> string" where
  "to_string v = (case v of None \<Rightarrow> ''undefined'' | Some s \<Rightarrow> s)"

text \<open>\<^verbatim>\<open>v || null\<close>: an absent or empty value becomes \<open>null\<close>.\<close>

definition or_null :: "string option \<Rightarrow> string option" where
  "or_null v = (if truthy v then v else None)"

definition is_digit :: "char \<Rightarrow> bool" where
  "is_digit c = (c \<in> set ''0123456789'')"

definition digit_val :: "char \<Rightarrow> nat" where
  "digit_val c = of_char c - 48"

definition digits_value :: "string \<Rightarrow> nat" where
  "digits_value ds = foldl (\<lambda>n c. 10 * n + digit_val c) 0 ds"

text \<open>The decimal rendering of a non-negative integer, as a template literal prints it.\<close>

definition digit_char :: "nat \<Rightarrow> char" where
  "digit_char d = ''0123456789'' ! d"

fun show_nat :: "nat \<Rightarrow> string" where
  "show_nat n = (if n < 10 then [digit_char n] else show_nat (n div 10) @ [digit_char (n mod 10)])"

declare show_nat.simps [simp del]

text \<open>\<^verbatim>\<open>Array.prototype.join\<close> on an array of strings.\<close>

fun join :: "string \<Rightarrow> string list \<Rightarrow> string" where
  "join sep [] = []"
| "join sep [x] = x"
| "join sep (x # y # ys) = x @ sep @ join sep (y # ys)"

text \<open>
  A JavaScript number, as far as the pipeline looks at it: not-a-number, the two
  infinities, or a finite value. \<open>Fin r\<close> stands for the binary64 value nearest to \<open>r\<close>;
  the rounding of the mantissa is not modelled, the overflow to an infinity and the
  underflow to zero are. Negative zero is \<open>Fin 0\<close>: no comparison of the pipeline tells the
  two zeros apart.
\<close>

datatype jsnum = NaN | NInf | Fin rat | PInf

text \<open>
  Rounding of a sign and a magnitude to binary64 (round to nearest, ties to even): from
  \<open>2^1024 - 2^970\<close> on the result is infinite, up to \<open>2^-1075\<close> it is zero.
\<close>

definition round_double :: "bool \<Rightarrow> rat \<Rightarrow> jsnum" where
  "round_double neg m =
     (if 2 ^ 1024 - 2 ^ 970 \<le> m then (if neg then NInf else PInf)
      else if m \<le> 1 / 2 ^ 1075 then Fin 0
      else Fin (if neg then - m else m))"

definition isNaN :: "jsnum \<Rightarrow> bool" where
  "isNaN x = (x = NaN)"

text \<open>\<^verbatim>\<open>x < c\<close> for a number \<open>x\<close> and a finite constant \<open>c\<close>.\<close>

definition js_lt :: "jsnum \<Rightarrow> rat \<Rightarrow> bool" where
  "js_lt x c = (case x of NaN \<Rightarrow> False | NInf \<Rightarrow> True | Fin r \<Rightarrow> r < c | PInf \<Rightarrow> False)"

definition is_finite :: "jsnum \<Rightarrow> bool" where
  "is_finite x = (case x of Fin r \<Rightarrow> True | _ \<Rightarrow> False)"

text \<open>An optional sign in front of a numeric literal.\<close>

fun split_sign :: "string \<Rightarrow> bool \<times> string" where
  "split_sign [] = (False, [])"
| "split_sign (c # cs) =
     (if c = CHR ''-'' then (True, cs) else if c = CHR ''+'' then (False, cs) else (False, c # cs))"

text \<open>
  The value of the \<open>ExponentPart\<close> at the head of a string: \<open>e\<close> or \<open>E\<close>, an optional sign
  and at least one digit. Anything else is no exponent part, and the exponent is 0.
\<close>

definition exponent_part :: "string \<Rightarrow> int" where
  "exponent_part s =
     (case s of
        [] \<Rightarrow> 0
      | e # rest \<Rightarrow>
          if e = CHR ''e'' \<or> e = CHR ''E'' then
            (let (neg, t) = split_sign rest; ds = takeWhile is_digit t
             in if ds = [] then 0
                else if neg then - int (digits_value ds) else int (digits_value ds))
          else 0)"

text \<open>
  The mathematical value of the longest prefix that is a \<open>StrUnsignedDecimalLiteral\<close>
  other than \<open>Infinity\<close>: digits, an optional fraction, an optional exponent; a fraction
  alone needs a digit after the point. \<open>None\<close> when no prefix is one.
\<close>

definition unsigned_decimal :: "string \<Rightarrow> rat option" where
  "unsigned_decimal s =
     (let ip = takeWhile is_digit s; r1 = dropWhile is_digit s
      in if r1 \<noteq> [] \<and> hd r1 = CHR ''.'' then
           (let fp = takeWhile is_digit (tl r1); r2 = dropWhile is_digit (tl r1)
            in if ip = [] \<and> fp = [] then None
               else Some ((of_nat (digits_value ip) + of_nat (digits_value fp) / 10 ^ length fp)
                          * power_int 10 (exponent_part r2)))
         else if ip = [] then None
         else Some (of_nat (digits_value ip) * power_int 10 (exponent_part r1)))"

text \<open>\<^verbatim>\<open>parseFloat\<close> on a string.\<close>

definition parseFloat_str :: "string \<Rightarrow> jsnum" where
  "parseFloat_str s =
     (let (neg, u) = split_sign (dropWhile is_ws s)
      in if take 8 u = ''Infinity'' then (if neg then NInf else PInf)
         else (case unsigned_decimal u of None \<Rightarrow> NaN | Some m \<Rightarrow> round_double neg m))"

text \<open>\<^verbatim>\<open>parseFloat\<close> on a value that is \<open>undefined\<close> or a string: the argument is converted to a string first.\<close>

definition parseFloat :: "string option \<Rightarrow> jsnum" where
  "parseFloat v = parseFloat_str (to_string v)"

text \<open>\<^verbatim>\<open>parseInt(s, 10)\<close>: leading white space, an optional sign, the longest run of decimal digits.\<close>

definition parseInt10_str :: "string \<Rightarrow> jsnum" where
  "parseInt10_str s =
     (let (neg, u) = split_sign (dropWhile is_ws s); ds = takeWhile is_digit u
      in if ds = [] then NaN else round_double neg (of_nat (digits_value ds)))"

definition parseInt10 :: "string option \<Rightarrow> jsnum" where
  "parseInt10 v = parseInt10_str (to_string v)"

section \<open>The CSV parser worker\<close>

text \<open>
  The tokenising of the text into records is the work of the csv-parser library and is
  not modelled: a record arrives as the map from its (already mapped) header names to the
  raw cell values. The worker's \<open>mapValues\<close> option trims every value.
\<close>

definition mapValues :: "string \<Rightarrow> string" where
  "mapValues v = js_trim v"

definition mapValues_row :: "row \<Rightarrow> row" where
  "mapValues_row raw = (\<lambda>header. map_option mapValues (raw header))"

definition parseCSV :: "row list \<Rightarrow> row list" where
  "parseCSV records = map mapValues_row records"

datatype validation = Valid | Invalid string

definition requiredFields :: "string list" where
  "requiredFields = [''store_name'', ''book_name'', ''author_name'', ''price'']"

definition validateRow :: "row \<Rightarrow> nat \<Rightarrow> validation" where
  "validateRow row rowNumber =
     (let missingFields = filter (\<lambda>field. \<not> truthy (row field)) requiredFields
      in if length missingFields > 0 then
           Invalid (''Row '' @ show_nat rowNumber @ '': Missing required fields: ''
                    @ join '', '' missingFields)
         else
           (let price = parseFloat (row ''price'')
            in if isNaN price then
                 Invalid (''Row '' @ show_nat rowNumber @ '': Invalid price value: ''
                          @ to_string (row ''price''))
               else if truthy (row ''pages'') \<and>
                       (let pages = parseInt10 (row ''pages'') in isNaN pages \<or> js_lt pages 1) then
                 Invalid (''Row '' @ show_nat rowNumber @ '': Invalid pages value: ''
                          @ to_string (row ''pages''))
               else Valid))"

text \<open>
  The message of an error: a text written by this program, or the text of an error that
  the persistence layer raised (its wording is the library's and is not modelled).
\<close>

datatype error_message = Message string | PersistenceMessage

text \<open>An entry \<^verbatim>\<open>{row, data, error}\<close> of the error list.\<close>

record error_entry =
  e_row :: nat
  e_data :: row
  e_error :: error_message

type_synonym validated_row = "nat \<times> row"

text \<open>The worker's loop over the parsed rows, \<open>i\<close> the index of the next row.\<close>

fun validate_rows ::
  "nat \<Rightarrow> row list \<Rightarrow> validated_row list \<Rightarrow> error_entry list
   \<Rightarrow> validated_row list \<times> error_entry list" where
  "validate_rows i [] validatedRows validationErrors = (validatedRows, validationErrors)"
| "validate_rows i (r # rows) validatedRows validationErrors =
     (let rowNumber = i + 2
      in case validateRow r rowNumber of
           Valid \<Rightarrow> validate_rows (i + 1) rows (validatedRows @ [(rowNumber, r)]) validationErrors
         | Invalid e \<Rightarrow>
             validate_rows (i + 1) rows validatedRows
               (validationErrors @ [\<lparr>e_row = rowNumber, e_data = r, e_error = Message e\<rparr>]))"

definition csvParserWorker :: "row list \<Rightarrow> validated_row list \<times> error_entry list" where
  "csvParserWorker records = validate_rows 0 (parseCSV records) [] []"

section \<open>The persisted entities\<close>

text \<open>
  The four tables, each a list of rows in insertion order, and the sequences behind the
  auto-incremented keys. The time stamps that the persistence layer keeps are not
  modelled. A column takes what its declared type takes in PostgreSQL: a name is a
  \<^verbatim>\<open>STRING(255)\<close>, the address a \<^verbatim>\<open>STRING(500)\<close>, the logo a \<^verbatim>\<open>TEXT\<close> of any length, the ids,
  the pages and the copies are \<^verbatim>\<open>INTEGER\<close>s of 32 bits, the price is a \<^verbatim>\<open>DECIMAL(10, 2)\<close>.
  A value that a column does not take, and a value that fails a validator of the model
  files, is an error of the persistence layer. Whether a statement that the database
  rejects has drawn a value from a sequence is not modelled; no statement below depends
  on it.
\<close>

record store =
  s_id :: nat
  s_name :: string
  s_address :: "string option"
  s_logo :: "string option"

record author =
  a_id :: nat
  a_name :: string

record book =
  b_id :: nat
  b_name :: string
  b_pages :: "int option"
  b_author_id :: nat

record store_book =
  sb_store_id :: nat
  sb_book_id :: nat
  sb_price :: rat
  sb_copies :: nat
  sb_sold_out :: bool

record db =
  stores :: "store list"
  authors :: "author list"
  books :: "book list"
  store_books :: "store_book list"
  store_seq :: nat
  author_seq :: nat
  book_seq :: nat

definition empty_db :: db where
  "empty_db = \<lparr>stores = [], authors = [], books = [], store_books = [],
                store_seq = 1, author_seq = 1, book_seq = 1\<rparr>"

text \<open>
  A transaction that is rolled back leaves the tables as they were when it began; the
  sequences of PostgreSQL are not transactional and keep the values they reached.
\<close>

definition rollback :: "db \<Rightarrow> db \<Rightarrow> db" where
  "rollback begun d =
     begun\<lparr>store_seq := store_seq d, author_seq := author_seq d, book_seq := book_seq d\<rparr>"

text \<open>The validator \<^verbatim>\<open>notEmpty\<close> of the name columns rejects a string of white space only.\<close>

definition blank :: "string \<Rightarrow> bool" where
  "blank s = list_all is_ws s"

text \<open>The largest value of an \<^verbatim>\<open>INTEGER\<close> column, \<open>2^31 - 1\<close>.\<close>

definition int32_max :: nat where
  "int32_max = 2147483647"

text \<open>A value for an \<^verbatim>\<open>INTEGER\<close> column that is not negative: an id or a count of copies.\<close>

definition integer_fits :: "nat \<Rightarrow> bool" where
  "integer_fits i \<longleftrightarrow> i \<le> int32_max"

text \<open>A string that the database takes as a text: it has no character with the code 0.\<close>

definition text_fits :: "string \<Rightarrow> bool" where
  "text_fits s \<longleftrightarrow> CHR 0x00 \<notin> set s"

text \<open>
  A name column, \<^verbatim>\<open>STRING(255)\<close> with the validator \<^verbatim>\<open>notEmpty\<close>. (PostgreSQL cuts a
  longer value whose excess characters are all spaces instead of rejecting it. The values
  that the parser hands on are trimmed and never end in a space, so this case is left out.)
\<close>

definition name_fits :: "string \<Rightarrow> bool" where
  "name_fits n \<longleftrightarrow> \<not> blank n \<and> length n \<le> 255 \<and> text_fits n"

text \<open>The address column, \<^verbatim>\<open>STRING(500)\<close> or null.\<close>

definition address_fits :: "string option \<Rightarrow> bool" where
  "address_fits a = (case a of None \<Rightarrow> True | Some s \<Rightarrow> length s \<le> 500 \<and> text_fits s)"

text \<open>The logo column, \<^verbatim>\<open>TEXT\<close> or null.\<close>

definition logo_fits :: "string option \<Rightarrow> bool" where
  "logo_fits l = (case l of None \<Rightarrow> True | Some s \<Rightarrow> text_fits s)"

text \<open>
  \<^verbatim>\<open>Store.findOrCreate\<close>: the store of that name, or a new one built from the defaults.
  A \<^verbatim>\<open>where\<close> clause with an undefined value, and a new row that fails its validator or
  does not fit its columns, are errors of the persistence layer.
\<close>

definition Store_findOrCreate ::
  "string option \<Rightarrow> string option \<Rightarrow> string option \<Rightarrow> db
   \<Rightarrow> error_message + ((store \<times> bool) \<times> db)" where
  "Store_findOrCreate name address logo d =
     (case name of
        None \<Rightarrow> Inl PersistenceMessage
      | Some n \<Rightarrow>
          (case find (\<lambda>s. s_name s = n) (stores d) of
             Some s \<Rightarrow> Inr ((s, False), d)
           | None \<Rightarrow>
               if \<not> name_fits n \<or> \<not> address_fits address \<or> \<not> logo_fits logo
                  \<or> \<not> integer_fits (store_seq d)
               then Inl PersistenceMessage
               else
                 (let s = \<lparr>s_id = store_seq d, s_name = n, s_address = address, s_logo = logo\<rparr>
                  in Inr ((s, True), d\<lparr>stores := stores d @ [s], store_seq := store_seq d + 1\<rparr>))))"

text \<open>\<^verbatim>\<open>store.update({ logo })\<close> and \<^verbatim>\<open>store.update({ address })\<close>, by primary key.\<close>

definition Store_update_logo :: "nat \<Rightarrow> string option \<Rightarrow> db \<Rightarrow> error_message + db" where
  "Store_update_logo i logo d =
     (if \<not> logo_fits logo then Inl PersistenceMessage
      else Inr (d\<lparr>stores :=
                   map (\<lambda>s. if s_id s = i then s\<lparr>s_logo := logo\<rparr> else s) (stores d)\<rparr>))"

definition Store_update_address :: "nat \<Rightarrow> string option \<Rightarrow> db \<Rightarrow> error_message + db" where
  "Store_update_address i address d =
     (if \<not> address_fits address then Inl PersistenceMessage
      else Inr (d\<lparr>stores :=
                   map (\<lambda>s. if s_id s = i then s\<lparr>s_address := address\<rparr> else s) (stores d)\<rparr>))"

definition Author_findOrCreate ::
  "string option \<Rightarrow> db \<Rightarrow> error_message + ((author \<times> bool) \<times> db)" where
  "Author_findOrCreate name d =
     (case name of
        None \<Rightarrow> Inl PersistenceMessage
      | Some n \<Rightarrow>
          (case find (\<lambda>a. a_name a = n) (authors d) of
             Some a \<Rightarrow> Inr ((a, False), d)
           | None \<Rightarrow>
               if \<not> name_fits n \<or> \<not> integer_fits (author_seq d) then Inl PersistenceMessage
               else
                 (let a = \<lparr>a_id = author_seq d, a_name = n\<rparr>
                  in Inr ((a, True), d\<lparr>authors := authors d @ [a], author_seq := author_seq d + 1\<rparr>))))"

text \<open>\<^verbatim>\<open>row.pages ? parseInt(row.pages, 10) : null\<close>.\<close>

definition pages_value :: "string option \<Rightarrow> jsnum option" where
  "pages_value v = (if truthy v then Some (parseInt10 v) else None)"

text \<open>
  What the \<^verbatim>\<open>pages\<close> column takes: null, or an integer that passes the validator
  \<^verbatim>\<open>min: 1\<close> and is at most \<open>2^31 - 1\<close>. A value that is no integer at all (not-a-number, an
  infinity) or that is out of range is an error of the persistence layer.
\<close>

definition pages_column :: "jsnum option \<Rightarrow> error_message + int option" where
  "pages_column p =
     (case p of
        None \<Rightarrow> Inr None
      | Some x \<Rightarrow>
          (case x of
             Fin r \<Rightarrow>
               if r < 1 \<or> of_int \<lfloor>r\<rfloor> \<noteq> r \<or> of_nat int32_max < r then Inl PersistenceMessage
               else Inr (Some \<lfloor>r\<rfloor>)
           | _ \<Rightarrow> Inl PersistenceMessage))"

definition Book_findOrCreate ::
  "string option \<Rightarrow> nat \<Rightarrow> jsnum option \<Rightarrow> db \<Rightarrow> error_message + ((book \<times> bool) \<times> db)" where
  "Book_findOrCreate name author_id pages d =
     (case name of
        None \<Rightarrow> Inl PersistenceMessage
      | Some n \<Rightarrow>
          (case find (\<lambda>b. b_name b = n \<and> b_author_id b = author_id) (books d) of
             Some b \<Rightarrow> Inr ((b, False), d)
           | None \<Rightarrow>
               if \<not> name_fits n \<or> \<not> integer_fits (book_seq d) then Inl PersistenceMessage
               else
                 (case pages_column pages of
                    Inl e \<Rightarrow> Inl e
                  | Inr p \<Rightarrow>
                      (let b = \<lparr>b_id = book_seq d, b_name = n, b_pages = p, b_author_id = author_id\<rparr>
                       in Inr ((b, True), d\<lparr>books := books d @ [b], book_seq := book_seq d + 1\<rparr>)))))"

text \<open>\<^verbatim>\<open>pages !== book.pages\<close> for a number and a stored value that is an integer or null.\<close>

definition pages_differ :: "jsnum \<Rightarrow> int option \<Rightarrow> bool" where
  "pages_differ x p =
     (case x of
        Fin r \<Rightarrow> (case p of None \<Rightarrow> True | Some k \<Rightarrow> r \<noteq> of_int k)
      | _ \<Rightarrow> True)"

text \<open>\<^verbatim>\<open>book.update({ pages })\<close>, by primary key.\<close>

definition Book_update_pages :: "nat \<Rightarrow> jsnum \<Rightarrow> db \<Rightarrow> error_message + db" where
  "Book_update_pages i pages d =
     (case pages_column (Some pages) of
        Inl e \<Rightarrow> Inl e
      | Inr p \<Rightarrow> Inr (d\<lparr>books := map (\<lambda>b. if b_id b = i then b\<lparr>b_pages := p\<rparr> else b) (books d)\<rparr>))"

definition StoreBook_findOne :: "nat \<Rightarrow> nat \<Rightarrow> db \<Rightarrow> store_book option" where
  "StoreBook_findOne store_id book_id d =
     find (\<lambda>sb. sb_store_id sb = store_id \<and> sb_book_id sb = book_id) (store_books d)"

text \<open>
  A decimal number at the scale of the price column: rounded to two places after the
  point, a tie away from zero (the number is not negative where this is used).
\<close>

definition round2 :: "rat \<Rightarrow> rat" where
  "round2 r = of_int \<lfloor>r * 100 + 1 / 2\<rfloor> / 100"

text \<open>
  What the \<^verbatim>\<open>price\<close> column takes: a decimal number that passes the validator \<^verbatim>\<open>min: 0\<close>
  and that, rounded to two places, has at most eight digits before the point; the column
  holds the rounded number. Not-a-number and the infinities are no decimal numbers.
\<close>

definition price_column :: "jsnum \<Rightarrow> error_message + rat" where
  "price_column x =
     (case x of
        Fin r \<Rightarrow>
          if r < 0 \<or> 10 ^ 8 \<le> round2 r then Inl PersistenceMessage else Inr (round2 r)
      | _ \<Rightarrow> Inl PersistenceMessage)"

text \<open>\<^verbatim>\<open>existingInventory.update({ copies, price, sold_out })\<close>, by the composite primary key.\<close>

definition StoreBook_update ::
  "nat \<Rightarrow> nat \<Rightarrow> nat \<Rightarrow> jsnum \<Rightarrow> bool \<Rightarrow> db \<Rightarrow> error_message + db" where
  "StoreBook_update store_id book_id copies price sold_out d =
     (case price_column price of
        Inl e \<Rightarrow> Inl e
      | Inr p \<Rightarrow>
          if \<not> integer_fits copies then Inl PersistenceMessage
          else
            Inr (d\<lparr>store_books :=
                   map (\<lambda>sb. if sb_store_id sb = store_id \<and> sb_book_id sb = book_id
                             then sb\<lparr>sb_price := p, sb_copies := copies, sb_sold_out := sold_out\<rparr>
                             else sb)
                       (store_books d)\<rparr>))"

definition StoreBook_create ::
  "nat \<Rightarrow> nat \<Rightarrow> jsnum \<Rightarrow> nat \<Rightarrow> bool \<Rightarrow> db \<Rightarrow> error_message + db" where
  "StoreBook_create store_id book_id price copies sold_out d =
     (case price_column price of
        Inl e \<Rightarrow> Inl e
      | Inr p \<Rightarrow>
          if \<not> integer_fits copies then Inl PersistenceMessage
          else
            Inr (d\<lparr>store_books := store_books d @
                   [\<lparr>sb_store_id = store_id, sb_book_id = book_id, sb_price = p,
                     sb_copies = copies, sb_sold_out = sold_out\<rparr>]\<rparr>))"

section \<open>The reconciliation of one row\<close>

text \<open>The aggregate result of one upload; the nested counters are flattened.\<close>

record results =
  processed :: nat
  created_stores :: nat
  created_authors :: nat
  created_books :: nat
  created_inventory :: nat
  updated_inventory :: nat
  errors :: "error_entry list"

text \<open>
  The body of \<^verbatim>\<open>processRow\<close> is split at the comments of the source. Each step returns
  what it threw or produced, the \<^verbatim>\<open>results\<close> object as it has mutated it so far, and the
  tables as the open transaction sees them.
\<close>

text \<open>1. Find or create Store, then update its logo and its address.\<close>

definition processRow_store ::
  "row \<Rightarrow> results \<Rightarrow> db \<Rightarrow> (error_message + store) \<times> results \<times> db" where
  "processRow_store row results d =
     (case Store_findOrCreate (row ''store_name'') (or_null (row ''store_address''))
             (or_null (row ''logo'')) d of
        Inl e \<Rightarrow> (Inl e, results, d)
      | Inr ((store, storeCreated), d1) \<Rightarrow>
          (case (if \<not> storeCreated \<and> truthy (row ''logo'') \<and> row ''logo'' \<noteq> s_logo store
                 then Store_update_logo (s_id store) (row ''logo'') d1 else Inr d1) of
             Inl e \<Rightarrow> (Inl e, results, d1)
           | Inr d2 \<Rightarrow>
               (case (if \<not> storeCreated \<and> truthy (row ''store_address'')
                         \<and> row ''store_address'' \<noteq> s_address store
                      then Store_update_address (s_id store) (row ''store_address'') d2
                      else Inr d2) of
                  Inl e \<Rightarrow> (Inl e, results, d2)
                | Inr d3 \<Rightarrow>
                    (Inr store,
                     (if storeCreated
                      then results\<lparr>created_stores := created_stores results + 1\<rparr>
                      else results),
                     d3))))"

text \<open>2. Find or create Author.\<close>

definition processRow_author ::
  "row \<Rightarrow> results \<Rightarrow> db \<Rightarrow> (error_message + author) \<times> results \<times> db" where
  "processRow_author row results d =
     (case Author_findOrCreate (row ''author_name'') d of
        Inl e \<Rightarrow> (Inl e, results, d)
      | Inr ((author, authorCreated), d1) \<Rightarrow>
          (Inr author,
           (if authorCreated then results\<lparr>created_authors := created_authors results + 1\<rparr>
            else results),
           d1))"

text \<open>3. Find or create Book, then update its pages.\<close>

definition processRow_book ::
  "row \<Rightarrow> author \<Rightarrow> results \<Rightarrow> db \<Rightarrow> (error_message + book) \<times> results \<times> db" where
  "processRow_book row author results d =
     (case Book_findOrCreate (row ''book_name'') (a_id author) (pages_value (row ''pages'')) d of
        Inl e \<Rightarrow> (Inl e, results, d)
      | Inr ((book, bookCreated), d1) \<Rightarrow>
          (case (if \<not> bookCreated \<and> truthy (row ''pages'') then
                   (let pages = parseInt10 (row ''pages'')
                    in if pages_differ pages (b_pages book)
                       then Book_update_pages (b_id book) pages d1 else Inr d1)
                 else Inr d1) of
             Inl e \<Rightarrow> (Inl e, results, d1)
           | Inr d2 \<Rightarrow>
               (Inr book,
                (if bookCreated then results\<lparr>created_books := created_books results + 1\<rparr>
                 else results),
                d2)))"

text \<open>4. Find or create/update StoreBook (inventory).\<close>

definition processRow_inventory ::
  "row \<Rightarrow> store \<Rightarrow> book \<Rightarrow> results \<Rightarrow> db \<Rightarrow> (error_message + unit) \<times> results \<times> db" where
  "processRow_inventory row store book results d =
     (let price = parseFloat (row ''price'')
      in if isNaN price \<or> js_lt price 0 then
           (Inl (Message (''Invalid price value: '' @ to_string (row ''price''))), results, d)
         else
           (case StoreBook_findOne (s_id store) (b_id book) d of
              Some existingInventory \<Rightarrow>
                (case StoreBook_update (s_id store) (b_id book)
                        (sb_copies existingInventory + 1) price False d of
                   Inl e \<Rightarrow> (Inl e, results, d)
                 | Inr d1 \<Rightarrow>
                     (Inr (), results\<lparr>updated_inventory := updated_inventory results + 1\<rparr>, d1))
            | None \<Rightarrow>
                (case StoreBook_create (s_id store) (b_id book) price 1 False d of
                   Inl e \<Rightarrow> (Inl e, results, d)
                 | Inr d1 \<Rightarrow>
                     (Inr (), results\<lparr>created_inventory := created_inventory results + 1\<rparr>, d1))))"

text \<open>The \<^verbatim>\<open>try\<close> block: the four steps in order, the first error ends it.\<close>

definition processRow_try ::
  "row \<Rightarrow> results \<Rightarrow> db \<Rightarrow> (error_message + unit) \<times> results \<times> db" where
  "processRow_try row results d =
     (case processRow_store row results d of
        (Inl e, results1, d1) \<Rightarrow> (Inl e, results1, d1)
      | (Inr store, results1, d1) \<Rightarrow>
          (case processRow_author row results1 d1 of
             (Inl e, results2, d2) \<Rightarrow> (Inl e, results2, d2)
           | (Inr author, results2, d2) \<Rightarrow>
               (case processRow_book row author results2 d2 of
                  (Inl e, results3, d3) \<Rightarrow> (Inl e, results3, d3)
                | (Inr book, results3, d3) \<Rightarrow> processRow_inventory row store book results3 d3)))"

text \<open>
  \<^verbatim>\<open>processRow\<close>: the transaction is committed when the block ends, and rolled back when
  it throws; the error is thrown again. The counters of \<^verbatim>\<open>results\<close> are plain memory and
  stay as the block left them.
\<close>

definition processRow ::
  "row \<Rightarrow> results \<Rightarrow> db \<Rightarrow> (error_message + unit) \<times> results \<times> db" where
  "processRow row results d =
     (case processRow_try row results d of
        (Inl e, results1, d1) \<Rightarrow> (Inl e, results1, rollback d d1)
      | (Inr _, results1, d1) \<Rightarrow> (Inr (), results1, d1))"

section \<open>The batch\<close>

text \<open>The loop of \<^verbatim>\<open>processCSV\<close> over the validated rows.\<close>

fun processRows :: "validated_row list \<Rightarrow> results \<Rightarrow> db \<Rightarrow> results \<times> db" where
  "processRows [] results d = (results, d)"
| "processRows ((rowNumber, r) # rest) results d =
     (case processRow r results d of
        (Inr _, results1, d1) \<Rightarrow>
          processRows rest (results1\<lparr>processed := processed results1 + 1\<rparr>) d1
      | (Inl e, results1, d1) \<Rightarrow>
          processRows rest
            (results1\<lparr>errors := errors results1 @ [\<lparr>e_row = rowNumber, e_data = r, e_error = e\<rparr>]\<rparr>)
            d1)"

definition initial_results :: results where
  "initial_results =
     \<lparr>processed = 0, created_stores = 0, created_authors = 0, created_books = 0,
      created_inventory = 0, updated_inventory = 0, errors = []\<rparr>"

definition processCSV :: "row list \<Rightarrow> db \<Rightarrow> results \<times> db" where
  "processCSV records d =
     (let (validatedRows, validationErrors) = csvParserWorker records;
          results = initial_results\<lparr>errors := errors initial_results @ validationErrors\<rparr>
      in processRows validatedRows results d)"

section \<open>The upload route\<close>

record response =
  status :: nat
  success :: bool
  message :: string
  body_results :: results

text \<open>The part of the handler of \<^verbatim>\<open>POST /upload\<close> that follows \<^verbatim>\<open>processCSV\<close>.\<close>

definition upload_response :: "results \<Rightarrow> response" where
  "upload_response results =
     (let hasErrors = length (errors results) > 0;
          hasSuccesses = processed results > 0
      in if \<not> hasSuccesses \<and> hasErrors then
           \<lparr>status = 400, success = False,
            message = ''Failed to process any rows from the CSV file.'',
            body_results = results\<rparr>
         else
           \<lparr>status = 200, success = True,
            message = (if hasErrors then ''CSV processed with some errors.''
                       else ''CSV processed successfully.''),
            body_results = results\<rparr>)"

section \<open>The store report\<close>

text \<open>
  \<^verbatim>\<open>ORDER BY\<close> of SQL: the rows come back in an order that respects the sort keys; the
  order of rows that agree on every key is left to the database. So a query is a relation
  between the tables and the answers it may give. \<open>ahead x y\<close> says that \<open>x\<close> may stand
  before \<open>y\<close>.
\<close>

definition order_by :: "('a \<Rightarrow> 'a \<Rightarrow> bool) \<Rightarrow> 'a list \<Rightarrow> 'a list \<Rightarrow> bool" where
  "order_by ahead rows xs \<longleftrightarrow> mset xs = mset rows \<and> sorted_wrt ahead xs"

record book_entry =
  be_name :: string
  be_author :: string
  be_pages :: "int option"
  be_price :: rat
  be_copies :: nat

text \<open>
  The object built from one row of the answer and the book and author joined to it.
  \<open>None\<close> is the \<^verbatim>\<open>TypeError\<close> of reading a property of a missing book or author.
\<close>

definition book_entry_of :: "db \<Rightarrow> store_book \<Rightarrow> book_entry option" where
  "book_entry_of d sb =
     (case find (\<lambda>b. b_id b = sb_book_id sb) (books d) of
        None \<Rightarrow> None
      | Some b \<Rightarrow>
          (case find (\<lambda>a. a_id a = b_author_id b) (authors d) of
             None \<Rightarrow> None
           | Some a \<Rightarrow>
               Some \<lparr>be_name = b_name b, be_author = a_name a, be_pages = b_pages b,
                     be_price = sb_price sb, be_copies = sb_copies sb\<rparr>))"

text \<open>\<^verbatim>\<open>where: { store_id, sold_out: false }\<close>.\<close>

definition available_in :: "nat \<Rightarrow> store_book \<Rightarrow> bool" where
  "available_in storeId sb \<longleftrightarrow> sb_store_id sb = storeId \<and> \<not> sb_sold_out sb"

text \<open>\<^verbatim>\<open>order: [['price', 'DESC']]\<close>.\<close>

definition price_desc :: "store_book \<Rightarrow> store_book \<Rightarrow> bool" where
  "price_desc x y \<longleftrightarrow> sb_price y \<le> sb_price x"

text \<open>\<^verbatim>\<open>StoreBook.findAll\<close> with that filter, that order and \<^verbatim>\<open>limit: 5\<close>.\<close>

definition StoreBook_findAll :: "db \<Rightarrow> nat \<Rightarrow> store_book list \<Rightarrow> bool" where
  "StoreBook_findAll d storeId storeBooks \<longleftrightarrow>
     (\<exists>xs. order_by price_desc (filter (available_in storeId) (store_books d)) xs
           \<and> storeBooks = take 5 xs)"

text \<open>\<^verbatim>\<open>getTopPriciestBooks\<close>: \<open>out\<close> is an answer that the call may give.\<close>

definition getTopPriciestBooks :: "db \<Rightarrow> nat \<Rightarrow> book_entry list option \<Rightarrow> bool" where
  "getTopPriciestBooks d storeId out \<longleftrightarrow>
     (\<exists>storeBooks. StoreBook_findAll d storeId storeBooks
                   \<and> out = those (map (book_entry_of d) storeBooks))"

text \<open>
  The reading of the specification, for comparison: among equal prices the position
  inserted first comes first.
\<close>

definition insertion_order_priciest :: "db \<Rightarrow> nat \<Rightarrow> store_book list" where
  "insertion_order_priciest d storeId =
     take 5 (sort_key (\<lambda>sb. - sb_price sb) (filter (available_in storeId) (store_books d)))"

text \<open>
  The query of \<^verbatim>\<open>getTopProlificAuthors\<close>: the join of authors, books and inventory rows,
  filtered by the \<^verbatim>\<open>WHERE\<close> clause.
\<close>

definition prolific_join :: "db \<Rightarrow> nat \<Rightarrow> (author \<times> book \<times> store_book) list" where
  "prolific_join d storeId =
     [(a, b, sb). a \<leftarrow> authors d, b \<leftarrow> books d, b_author_id b = a_id a,
                  sb \<leftarrow> store_books d, sb_book_id sb = b_id b, available_in storeId sb]"

record author_group =
  g_id :: nat
  g_name :: string
  g_book_count :: nat
  g_total_copies :: nat

text \<open>\<^verbatim>\<open>GROUP BY a.id, a.name\<close> with \<^verbatim>\<open>COUNT(DISTINCT sb.book_id)\<close> and \<^verbatim>\<open>SUM(sb.copies)\<close>.\<close>

definition group_rows ::
  "(author \<times> book \<times> store_book) list \<Rightarrow> nat \<times> string \<Rightarrow> (author \<times> book \<times> store_book) list" where
  "group_rows joined k = filter (\<lambda>(a, b, sb). (a_id a, a_name a) = k) joined"

definition prolific_groups :: "db \<Rightarrow> nat \<Rightarrow> author_group list" where
  "prolific_groups d storeId =
     (let joined = prolific_join d storeId
      in map (\<lambda>k. \<lparr>g_id = fst k, g_name = snd k,
                    g_book_count =
                      length (remdups (map (\<lambda>(a, b, sb). sb_book_id sb) (group_rows joined k))),
                    g_total_copies =
                      sum_list (map (\<lambda>(a, b, sb). sb_copies sb) (group_rows joined k))\<rparr>)
             (remdups (map (\<lambda>(a, b, sb). (a_id a, a_name a)) joined)))"

text \<open>\<^verbatim>\<open>ORDER BY book_count DESC, total_copies DESC\<close>.\<close>

definition prolific_desc :: "author_group \<Rightarrow> author_group \<Rightarrow> bool" where
  "prolific_desc x y \<longleftrightarrow>
     g_book_count y < g_book_count x
     \<or> (g_book_count y = g_book_count x \<and> g_total_copies y \<le> g_total_copies x)"

record author_entry =
  ae_name :: string
  ae_bookCount :: nat
  ae_totalCopies :: nat

definition author_entry_of :: "author_group \<Rightarrow> author_entry" where
  "author_entry_of g =
     \<lparr>ae_name = g_name g, ae_bookCount = g_book_count g, ae_totalCopies = g_total_copies g\<rparr>"

text \<open>\<^verbatim>\<open>getTopProlificAuthors\<close>: \<open>out\<close> is an answer that the call may give.\<close>

definition getTopProlificAuthors :: "db \<Rightarrow> nat \<Rightarrow> author_entry list \<Rightarrow> bool" where
  "getTopProlificAuthors d storeId out \<longleftrightarrow>
     (\<exists>gs. order_by prolific_desc (prolific_groups d storeId) gs
           \<and> out = map author_entry_of (take 5 gs))"

section \<open>Auxiliary notions for the statements\<close>

text \<open>The text of a validation outcome; empty for a valid row.\<close>

definition reason_of :: "validation \<Rightarrow> string" where
  "reason_of v = (case v of Valid \<Rightarrow> [] | Invalid e \<Rightarrow> e)"

text \<open>A call of the persistence layer that went through.\<close>

definition accepted :: "error_message + 'a \<Rightarrow> bool" where
  "accepted x = (case x of Inl e \<Rightarrow> False | Inr v \<Rightarrow> True)"

text \<open>
  The columns take the values of a row: the pages column takes its pages (none, or an
  integer from 1 to \<open>2^31 - 1\<close>); the price column takes its price (finite, not negative,
  below \<open>10^8\<close> when rounded to two places); a name column takes a name (present, not
  blank, at most 255 characters, none with the code 0); the address column takes its
  address (none, or at most 500 characters, none with the code 0); the logo column takes
  its logo (none, or without a character with the code 0).
\<close>

definition pages_storable :: "row \<Rightarrow> bool" where
  "pages_storable r \<longleftrightarrow> accepted (pages_column (pages_value (r ''pages'')))"


definition name_storable :: "string option \<Rightarrow> bool" where
  "name_storable v = (case v of None \<Rightarrow> False | Some n \<Rightarrow> name_fits n)"

definition address_storable :: "row \<Rightarrow> bool" where
  "address_storable r \<longleftrightarrow> address_fits (or_null (r ''store_address''))"

definition logo_storable :: "row \<Rightarrow> bool" where
  "logo_storable r \<longleftrightarrow> logo_fits (or_null (r ''logo''))"

definition row_storable :: "row \<Rightarrow> bool" where
  "row_storable r \<longleftrightarrow>
     name_storable (r ''store_name'') \<and> name_storable (r ''author_name'')
     \<and> name_storable (r ''book_name'') \<and> address_storable r \<and> logo_storable r
     \<and> pages_storable r"

text \<open>The three sequences have a value left that fits an id column.\<close>

definition ids_available :: "db \<Rightarrow> bool" where
  "ids_available d \<longleftrightarrow>
     integer_fits (store_seq d) \<and> integer_fits (author_seq d) \<and> integer_fits (book_seq d)"

text \<open>The tables that hold one store, one author, one book and one position with \<open>k\<close> copies.\<close>

definition ingested ::
  "string \<Rightarrow> string option \<Rightarrow> string option \<Rightarrow> string \<Rightarrow> string \<Rightarrow> int option \<Rightarrow> rat \<Rightarrow> nat \<Rightarrow> db" where
  "ingested sn addr logo an bn pg p k =
     \<lparr>stores = [\<lparr>s_id = 1, s_name = sn, s_address = addr, s_logo = logo\<rparr>],
      authors = [\<lparr>a_id = 1, a_name = an\<rparr>],
      books = [\<lparr>b_id = 1, b_name = bn, b_pages = pg, b_author_id = 1\<rparr>],
      store_books = [\<lparr>sb_store_id = 1, sb_book_id = 1, sb_price = p, sb_copies = k,
                      sb_sold_out = False\<rparr>],
      store_seq = 2, author_seq = 2, book_seq = 2\<rparr>"

text \<open>
  Records for the examples: the line \<^verbatim>\<open>BookWorld,,Gatsby,180,Fitzgerald,15.99,\<close> under the
  header \<^verbatim>\<open>store_name,store_address,book_name,pages,author_name,price,logo\<close>, and the same
  line with another price.
\<close>

definition gatsby_priced :: "string \<Rightarrow> row" where
  "gatsby_priced p = map_of [(''store_name'', ''BookWorld''), (''store_address'', []),
     (''book_name'', ''Gatsby''), (''pages'', ''180''), (''author_name'', ''Fitzgerald''),
     (''price'', p), (''logo'', [])]"

definition gatsby :: row where
  "gatsby = gatsby_priced ''15.99''"

text \<open>The same line with other pages and another price.\<close>

definition gatsby_paged :: "string \<Rightarrow> string \<Rightarrow> row" where
  "gatsby_paged pg p = map_of [(''store_name'', ''BookWorld''), (''store_address'', []),
     (''book_name'', ''Gatsby''), (''pages'', pg), (''author_name'', ''Fitzgerald''),
     (''price'', p), (''logo'', [])]"


text \<open>
  What a row may do to the stores table \<open>ss\<close>, giving \<open>ss'\<close>: the stores that were there
  keep their place, their id and their name, and keep their address (their logo) when the
  row has no address (no logo); a store that was added has the address (the logo) null
  when the row has none.
\<close>

definition stores_kept :: "row \<Rightarrow> store list \<Rightarrow> store list \<Rightarrow> bool" where
  "stores_kept r ss ss' \<longleftrightarrow>
     length ss \<le> length ss'
     \<and> (\<forall>i < length ss.
           s_id (ss' ! i) = s_id (ss ! i) \<and> s_name (ss' ! i) = s_name (ss ! i)
           \<and> (\<not> truthy (r ''store_address'') \<longrightarrow> s_address (ss' ! i) = s_address (ss ! i))
           \<and> (\<not> truthy (r ''logo'') \<longrightarrow> s_logo (ss' ! i) = s_logo (ss ! i)))
     \<and> (\<forall>i. length ss \<le> i \<and> i < length ss' \<longrightarrow>
           (\<not> truthy (r ''store_address'') \<longrightarrow> s_address (ss' ! i) = None)
           \<and> (\<not> truthy (r ''logo'') \<longrightarrow> s_logo (ss' ! i) = None))"

text \<open>Tables for the examples: one store that has an address and a logo.\<close>

definition addressed_store :: db where
  "addressed_store =
     \<lparr>stores = [\<lparr>s_id = 1, s_name = ''BookWorld'', s_address = Some ''1 Main St'',
                 s_logo = Some ''logo.png''\<rparr>],
      authors = [], books = [], store_books = [],
      store_seq = 2, author_seq = 1, book_seq = 1\<rparr>"

text \<open>
  The positions of a store that are not sold out and whose book is by the author with the
  id \<open>i\<close>.
\<close>

definition author_positions :: "db \<Rightarrow> nat \<Rightarrow> nat \<Rightarrow> store_book list" where
  "author_positions d storeId i =
     filter (\<lambda>sb. available_in storeId sb
                  \<and> (\<exists>b \<in> set (books d). b_id b = sb_book_id sb \<and> b_author_id b = i))
       (store_books d)"

text \<open>The primary keys of the authors and of the books are unique.\<close>

definition unique_ids :: "db \<Rightarrow> bool" where
  "unique_ids d \<longleftrightarrow> distinct (map a_id (authors d)) \<and> distinct (map b_id (books d))"

text \<open>
  Tables for the examples: one store; author A with the books 1 and 2, author B with the
  books 3 and 4; the positions of the four books, in this order, at the prices 9.99, 25,
  25 and 3.50 with 1, 2, 2 and 3 copies; a fifth position, of book 1 in another store;
  the position of book 4 is sold out in \<open>priced_stock\<close> and available in \<open>prolific_stock\<close>.
\<close>

definition stock :: "bool \<Rightarrow> db" where
  "stock sold =
     \<lparr>stores = [\<lparr>s_id = 1, s_name = ''BookWorld'', s_address = None, s_logo = None\<rparr>,
                \<lparr>s_id = 2, s_name = ''Other'', s_address = None, s_logo = None\<rparr>],
      authors = [\<lparr>a_id = 1, a_name = ''A''\<rparr>, \<lparr>a_id = 2, a_name = ''B''\<rparr>],
      books = [\<lparr>b_id = 1, b_name = ''One'', b_pages = Some 100, b_author_id = 1\<rparr>,
               \<lparr>b_id = 2, b_name = ''Two'', b_pages = None, b_author_id = 1\<rparr>,
               \<lparr>b_id = 3, b_name = ''Three'', b_pages = Some 300, b_author_id = 2\<rparr>,
               \<lparr>b_id = 4, b_name = ''Four'', b_pages = Some 400, b_author_id = 2\<rparr>],
      store_books =
        [\<lparr>sb_store_id = 1, sb_book_id = 1, sb_price = 999 / 100, sb_copies = 1, sb_sold_out = False\<rparr>,
         \<lparr>sb_store_id = 1, sb_book_id = 2, sb_price = 25, sb_copies = 2, sb_sold_out = False\<rparr>,
         \<lparr>sb_store_id = 1, sb_book_id = 3, sb_price = 25, sb_copies = 2, sb_sold_out = False\<rparr>,
         \<lparr>sb_store_id = 1, sb_book_id = 4, sb_price = 7 / 2, sb_copies = 3, sb_sold_out = sold\<rparr>,
         \<lparr>sb_store_id = 2, sb_book_id = 1, sb_price = 50, sb_copies = 9, sb_sold_out = False\<rparr>],
      store_seq = 3, author_seq = 3, book_seq = 5\<rparr>"

definition priced_stock :: db where
  "priced_stock = stock True"

definition prolific_stock :: db where
  "prolific_stock = stock False"

definition entry_one :: book_entry where
  "entry_one = \<lparr>be_name = ''One'', be_author = ''A'', be_pages = Some 100,
                be_price = 999 / 100, be_copies = 1\<rparr>"

definition entry_two :: book_entry where
  "entry_two = \<lparr>be_name = ''Two'', be_author = ''A'', be_pages = None,
                be_price = 25, be_copies = 2\<rparr>"

definition entry_three :: book_entry where
  "entry_three = \<lparr>be_name = ''Three'', be_author = ''B'', be_pages = Some 300,
                  be_price = 25, be_copies = 2\<rparr>"

section \<open>Properties of the worker\<close>

lemma validate_rows_enumerate:
  "validate_rows i rows vs es =
     (vs @ map (\<lambda>(k, r). (k + 2, r))
             (filter (\<lambda>(k, r). validateRow r (k + 2) = Valid) (enumerate i rows)),
      es @ map (\<lambda>(k, r). \<lparr>e_row = k + 2, e_data = r,
                           e_error = Message (reason_of (validateRow r (k + 2)))\<rparr>)
             (filter (\<lambda>(k, r). validateRow r (k + 2) \<noteq> Valid) (enumerate i rows)))"
  by (induction rows arbitrary: i vs es) (auto simp: reason_of_def split: validation.splits)

lemma enumerate_nth: "enumerate 0 xs = map (\<lambda>k. (k, xs ! k)) [0..<length xs]"
  by (rule nth_equalityI) (simp_all add: nth_enumerate_eq)

text \<open>
  C8: the data record at index \<open>k\<close> (counting from 0) carries the row ordinal \<open>k + 2\<close>,
  in the validated rows when it is valid and in the error list when it is not; both lists
  keep the order of the records.
\<close>

theorem worker_ordinals:
  "csvParserWorker records =
     (map (\<lambda>k. (k + 2, parseCSV records ! k))
        (filter (\<lambda>k. validateRow (parseCSV records ! k) (k + 2) = Valid) [0..<length records]),
      map (\<lambda>k. \<lparr>e_row = k + 2, e_data = parseCSV records ! k,
                 e_error = Message (reason_of (validateRow (parseCSV records ! k) (k + 2)))\<rparr>)
        (filter (\<lambda>k. validateRow (parseCSV records ! k) (k + 2) \<noteq> Valid) [0..<length records]))"
proof -
  have len: "length (parseCSV records) = length records"
    by (simp add: parseCSV_def)
  show ?thesis
    unfolding csvParserWorker_def validate_rows_enumerate enumerate_nth len
    by (simp add: filter_map o_def)
qed

lemma parseInt_ok:
  "(\<not> isNaN (parseInt10_str s) \<and> \<not> js_lt (parseInt10_str s) 1) \<longleftrightarrow>
   ((\<exists>k::nat. 1 \<le> k \<and> parseInt10_str s = Fin (of_nat k)) \<or> parseInt10_str s = PInf)"
  by (auto simp: parseInt10_str_def round_double_def isNaN_def js_lt_def Let_def
           split: prod.splits if_splits)

lemma validateRow_Valid_iff:
  "validateRow r n = Valid \<longleftrightarrow>
     (\<forall>f \<in> set requiredFields. truthy (r f)) \<and> \<not> isNaN (parseFloat (r ''price''))
     \<and> (truthy (r ''pages'') \<longrightarrow>
          \<not> isNaN (parseInt10 (r ''pages'')) \<and> \<not> js_lt (parseInt10 (r ''pages'')) 1)"
  by (auto simp: validateRow_def Let_def filter_empty_conv)

lemma truthy_mapValues:
  "truthy (mapValues_row raw f) \<longleftrightarrow> (\<exists>v. raw f = Some v \<and> js_trim v \<noteq> [])"
  by (cases "raw f") (simp_all add: truthy_def mapValues_row_def mapValues_def)

lemma validateRow_Invalid_reason:
  "validateRow r n = Invalid e \<Longrightarrow>
     \<exists>reason. reason \<noteq> [] \<and> e = ''Row '' @ show_nat n @ '': '' @ reason"
  by (auto simp: validateRow_def Let_def split: if_splits)

lemma validateRow_mapValues_iff:
  "validateRow (mapValues_row raw) n = Valid \<longleftrightarrow>
      (\<forall>f \<in> set requiredFields. \<exists>v. raw f = Some v \<and> js_trim v \<noteq> [])
      \<and> (\<exists>v. raw ''price'' = Some v \<and> parseFloat_str (js_trim v) \<noteq> NaN)
      \<and> (\<forall>v. raw ''pages'' = Some v \<and> js_trim v \<noteq> [] \<longrightarrow>
             (\<exists>k::nat. 1 \<le> k \<and> parseInt10_str (js_trim v) = Fin (of_nat k))
             \<or> parseInt10_str (js_trim v) = PInf)"
  unfolding validateRow_Valid_iff truthy_mapValues
  by (cases "raw ''price''"; cases "raw ''pages''")
     (auto simp: requiredFields_def parseFloat_def parseInt10_def to_string_def
        mapValues_row_def mapValues_def isNaN_def parseInt_ok[unfolded isNaN_def])

text \<open>
  C4, as the code has it: \<^verbatim>\<open>validateRow\<close> accepts a parsed record if and only if the store
  name, the book name, the author name and the price are present and not empty after
  trimming, the trimmed price reads under \<^verbatim>\<open>parseFloat\<close> as a number other than \<open>NaN\<close> (an
  infinity passes), and the pages, when present and not empty after trimming, read under
  \<^verbatim>\<open>parseInt\<close> as an integer from 1 on (or as so many digits that the value is \<open>Infinity\<close>).
  Every rejection carries the text \<^verbatim>\<open>Row n: \<close> with the ordinal, followed by a reason.
\<close>

theorem validateRow_accepts_iff:
  "(validateRow (mapValues_row raw) n = Valid \<longleftrightarrow>
      (\<forall>f \<in> set requiredFields. \<exists>v. raw f = Some v \<and> js_trim v \<noteq> [])
      \<and> (\<exists>v. raw ''price'' = Some v \<and> parseFloat_str (js_trim v) \<noteq> NaN)
      \<and> (\<forall>v. raw ''pages'' = Some v \<and> js_trim v \<noteq> [] \<longrightarrow>
             (\<exists>k::nat. 1 \<le> k \<and> parseInt10_str (js_trim v) = Fin (of_nat k))
             \<or> parseInt10_str (js_trim v) = PInf))
   \<and> (\<forall>e. validateRow r n = Invalid e \<longrightarrow>
          (\<exists>reason. reason \<noteq> [] \<and> e = ''Row '' @ show_nat n @ '': '' @ reason))"
  using validateRow_mapValues_iff [of raw n] validateRow_Invalid_reason [of r n]
  by blast

text \<open>The definitions that evaluate the JavaScript primitives on a concrete string.\<close>

lemmas js_eval = js_trim_def is_ws_def is_digit_def digits_value_def digit_val_def
  parseFloat_def parseFloat_str_def parseInt10_def parseInt10_str_def unsigned_decimal_def
  exponent_part_def round_double_def to_string_def truthy_def isNaN_def js_lt_def is_finite_def
  mapValues_row_def mapValues_def

text \<open>
  The theorem at the example record, which it accepts, and at the same record with the
  price \<^verbatim>\<open>abc\<close>, which it rejects as row 2.
\<close>

theorem validateRow_accepts_iff_witness:
  "gatsby ''price'' = Some ''15.99'' \<and> parseFloat_str (js_trim ''15.99'') \<noteq> NaN
   \<and> gatsby ''pages'' = Some ''180''
   \<and> parseInt10_str (js_trim ''180'') = Fin (of_nat 180)
   \<and> validateRow (mapValues_row gatsby) 2 = Valid
   \<and> validateRow (gatsby_priced ''abc'') 2 = Invalid ''Row 2: Invalid price value: abc''
   \<and> (\<exists>reason. reason \<noteq> [] \<and>
         ''Row 2: Invalid price value: abc'' = ''Row '' @ show_nat 2 @ '': '' @ reason)"
proof -
  have names: "\<forall>f \<in> set requiredFields. \<exists>v. gatsby f = Some v \<and> js_trim v \<noteq> []"
    by (simp add: requiredFields_def gatsby_def gatsby_priced_def js_trim_def is_ws_def)
  have price: "gatsby ''price'' = Some ''15.99''" "parseFloat_str (js_trim ''15.99'') \<noteq> NaN"
    by (simp_all add: gatsby_def gatsby_priced_def js_eval)
  have pages: "gatsby ''pages'' = Some ''180''"
    "parseInt10_str (js_trim ''180'') = Fin (of_nat 180)"
    by (simp_all add: gatsby_def gatsby_priced_def js_eval)
  have bad: "validateRow (gatsby_priced ''abc'') 2 = Invalid ''Row 2: Invalid price value: abc''"
    by (simp add: validateRow_def requiredFields_def gatsby_priced_def js_eval show_nat.simps
          digit_char_def)
  note t = validateRow_accepts_iff [of gatsby 2 "gatsby_priced ''abc''"]
  from t names price pages have "validateRow (mapValues_row gatsby) 2 = Valid"
    by (metis option.inject one_le_numeral of_nat_numeral)
  moreover from t bad have "\<exists>reason. reason \<noteq> [] \<and>
      ''Row 2: Invalid price value: abc'' = ''Row '' @ show_nat 2 @ '': '' @ reason"
    by blast
  ultimately show ?thesis using names price pages bad by blast
qed

text \<open>
  The claim as written asks for a finite price. The record with the price \<^verbatim>\<open>Infinity\<close> is
  accepted, and its price is not finite.
\<close>

theorem validateRow_finite_price_counterexample:
  "validateRow (mapValues_row (gatsby_priced ''Infinity'')) 2 = Valid
   \<and> \<not> is_finite (parseFloat (mapValues_row (gatsby_priced ''Infinity'') ''price''))"
  by (simp add: validateRow_def requiredFields_def gatsby_priced_def js_eval)

section \<open>Properties of the reconciliation\<close>


subsection \<open>What each step leaves alone\<close>

lemma processRow_store_results:
  "processRow_store r res d = (x, res1, d1) \<Longrightarrow> \<exists>k. res1 = res\<lparr>created_stores := k\<rparr>"
  apply (auto simp: processRow_store_def Store_findOrCreate_def Let_def
              split: option.splits sum.splits if_splits prod.splits)
         apply (rule exI[of _ "created_stores res"], simp)+
  done

lemma processRow_store_frame:
  "processRow_store r res d = (x, res1, d1) \<Longrightarrow>
     authors d1 = authors d \<and> books d1 = books d \<and> store_books d1 = store_books d
     \<and> author_seq d1 = author_seq d \<and> book_seq d1 = book_seq d"
  by (auto simp: processRow_store_def Store_findOrCreate_def Let_def Store_update_logo_def
        Store_update_address_def split: option.splits sum.splits if_splits prod.splits)

lemma processRow_store_Inl:
  "processRow_store r res d = (Inl e, res1, d1) \<Longrightarrow> e = PersistenceMessage"
  by (auto simp: processRow_store_def Store_findOrCreate_def Let_def Store_update_logo_def
        Store_update_address_def split: option.splits sum.splits if_splits prod.splits)

lemma processRow_author_results:
  "processRow_author r res d = (x, res1, d1) \<Longrightarrow> \<exists>k. res1 = res\<lparr>created_authors := k\<rparr>"
  apply (auto simp: processRow_author_def Author_findOrCreate_def Let_def
              split: option.splits sum.splits if_splits prod.splits)
      apply (rule exI[of _ "created_authors res"], simp)+
  done

lemma processRow_author_frame:
  "processRow_author r res d = (x, res1, d1) \<Longrightarrow>
     stores d1 = stores d \<and> books d1 = books d \<and> store_books d1 = store_books d
     \<and> store_seq d1 = store_seq d \<and> book_seq d1 = book_seq d"
  by (auto simp: processRow_author_def Author_findOrCreate_def Let_def
           split: option.splits sum.splits if_splits prod.splits)

lemma processRow_author_Inl:
  "processRow_author r res d = (Inl e, res1, d1) \<Longrightarrow> e = PersistenceMessage"
  by (auto simp: processRow_author_def Author_findOrCreate_def Let_def
        split: option.splits sum.splits if_splits prod.splits)

lemma pages_column_Inl: "pages_column p = Inl e \<Longrightarrow> e = PersistenceMessage"
  by (auto simp: pages_column_def split: option.splits jsnum.splits if_splits)

lemma price_column_Inl: "price_column x = Inl e \<Longrightarrow> e = PersistenceMessage"
  by (auto simp: price_column_def split: jsnum.splits if_splits)

lemma processRow_book_results:
  "processRow_book r a res d = (x, res1, d1) \<Longrightarrow> \<exists>k. res1 = res\<lparr>created_books := k\<rparr>"
  apply (auto simp: processRow_book_def Book_findOrCreate_def Let_def Book_update_pages_def
              split: option.splits sum.splits if_splits prod.splits)
          apply (rule exI[of _ "created_books res"], simp)+
  done

lemma processRow_book_frame:
  "processRow_book r a res d = (x, res1, d1) \<Longrightarrow>
     stores d1 = stores d \<and> authors d1 = authors d \<and> store_books d1 = store_books d"
  by (auto simp: processRow_book_def Book_findOrCreate_def Let_def Book_update_pages_def
           split: option.splits sum.splits if_splits prod.splits)

lemma processRow_book_Inl:
  "processRow_book r a res d = (Inl e, res1, d1) \<Longrightarrow> e = PersistenceMessage"
  by (auto simp: processRow_book_def Book_findOrCreate_def Let_def Book_update_pages_def
        split: option.splits sum.splits if_splits prod.splits dest: pages_column_Inl)

lemma processRow_inventory_frame:
  "processRow_inventory r s b res d = (x, res1, d1) \<Longrightarrow>
     stores d1 = stores d \<and> authors d1 = authors d \<and> books d1 = books d"
  by (auto simp: processRow_inventory_def StoreBook_update_def StoreBook_create_def Let_def
           split: option.splits sum.splits if_splits prod.splits)

lemma processRow_inventory_Inr:
  "processRow_inventory r s b res d = (Inr u, res1, d1) \<Longrightarrow>
     res1 = res\<lparr>updated_inventory := updated_inventory res + 1\<rparr>
     \<or> res1 = res\<lparr>created_inventory := created_inventory res + 1\<rparr>"
  by (auto simp: processRow_inventory_def Let_def
           split: option.splits sum.splits if_splits prod.splits)

lemma processRow_inventory_Inl:
  "processRow_inventory r s b res d = (Inl e, res1, d1) \<Longrightarrow> res1 = res \<and> d1 = d"
  by (auto simp: processRow_inventory_def Let_def
           split: option.splits sum.splits if_splits prod.splits)


subsection \<open>The counters of a batch\<close>

lemma processRow_try_counters:
  "processRow_try r res d = (x, res1, d1) \<Longrightarrow>
     processed res1 = processed res \<and> errors res1 = errors res
     \<and> created_inventory res1 + updated_inventory res1
         = created_inventory res + updated_inventory res + (case x of Inl e \<Rightarrow> 0 | Inr u \<Rightarrow> 1)"
  unfolding processRow_try_def
  by (auto split: prod.splits sum.splits
           dest!: processRow_store_results processRow_author_results processRow_book_results
                  processRow_inventory_Inr processRow_inventory_Inl)

lemma processRow_counters:
  "processRow r res d = (x, res1, d1) \<Longrightarrow>
     processed res1 = processed res \<and> errors res1 = errors res
     \<and> created_inventory res1 + updated_inventory res1
         = created_inventory res + updated_inventory res + (case x of Inl e \<Rightarrow> 0 | Inr u \<Rightarrow> 1)"
  unfolding processRow_def
  by (auto split: prod.splits sum.splits dest!: processRow_try_counters)

lemma processRows_counters:
  "processRows vrows res d = (res1, d1) \<Longrightarrow>
     processed res1 + (created_inventory res + updated_inventory res)
       = processed res + (created_inventory res1 + updated_inventory res1)
     \<and> processed res1 + length (errors res1)
         = processed res + length (errors res) + length vrows"
proof (induction vrows res d rule: processRows.induct)
  case (1 results d)
  then show ?case by simp
next
  case (2 rowNumber r rest results d)
  obtain x results1 d2 where step: "processRow r results d = (x, results1, d2)"
    by (cases "processRow r results d") auto
  note c = processRow_counters[OF step]
  show ?case
  proof (cases x)
    case (Inl e)
    with 2 step c show ?thesis by auto
  next
    case (Inr u)
    with 2 step c show ?thesis by auto
  qed
qed

lemma validate_rows_lengths:
  "validate_rows i rows vs es = (vs1, es1) \<Longrightarrow>
     length vs1 + length es1 = length vs + length es + length rows"
  by (induction rows arbitrary: i vs es) (auto simp: Let_def split: validation.splits)

lemma csvParserWorker_lengths:
  "csvParserWorker records = (vs, es) \<Longrightarrow> length vs + length es = length records"
  by (auto simp: csvParserWorker_def parseCSV_def dest: validate_rows_lengths)

lemma processCSV_counters:
  "processCSV records d = (res, d1) \<Longrightarrow>
     processed res = created_inventory res + updated_inventory res
     \<and> processed res + length (errors res) = length records"
  unfolding processCSV_def
  by (auto simp: initial_results_def split: prod.splits
           dest!: processRows_counters csvParserWorker_lengths)

text \<open>
  C9: in the result of \<^verbatim>\<open>processCSV\<close> the processed count is the sum of the created and
  the updated inventory counts, and every record of the upload is either counted as
  processed or listed as an error.
\<close>

theorem processCSV_processed_count:
  "processed (fst (processCSV records d))
     = created_inventory (fst (processCSV records d)) + updated_inventory (fst (processCSV records d))
   \<and> processed (fst (processCSV records d)) + length (errors (fst (processCSV records d)))
       = length records"
  using processCSV_counters [of records d "fst (processCSV records d)" "snd (processCSV records d)"]
  by simp


subsection \<open>Rows that the columns take reach the price check\<close>

lemma or_null_truthy: "truthy v \<Longrightarrow> or_null v = v"
  by (simp add: or_null_def)

lemma processRow_store_ok:
  assumes "name_storable (r ''store_name'')" "address_storable r" "logo_storable r"
    "integer_fits (store_seq d)"
  shows "\<exists>s res1 d1. processRow_store r res d = (Inr s, res1, d1)"
  using assms
  by (auto simp: processRow_store_def Store_findOrCreate_def Let_def name_storable_def
        address_storable_def logo_storable_def Store_update_logo_def Store_update_address_def
        or_null_truthy split: option.splits)

lemma processRow_author_ok:
  assumes "name_storable (r ''author_name'')" "integer_fits (author_seq d)"
  shows "\<exists>a res1 d1. processRow_author r res d = (Inr a, res1, d1)"
  using assms
  by (auto simp: processRow_author_def Author_findOrCreate_def Let_def name_storable_def
        split: option.splits)

lemma accepted_Inr: "accepted x \<Longrightarrow> \<exists>v. x = Inr v"
  by (cases x) (simp_all add: accepted_def)

lemma pages_storable_update:
  assumes "pages_storable r" "truthy (r ''pages'')"
  shows "\<exists>p. pages_column (Some (parseInt10 (r ''pages''))) = Inr p"
  using assms accepted_Inr[of "pages_column (pages_value (r ''pages''))"]
  by (simp add: pages_storable_def pages_value_def)

lemma processRow_book_ok:
  assumes "name_storable (r ''book_name'')" "pages_storable r" "integer_fits (book_seq d)"
  shows "\<exists>bk res1 d1. processRow_book r a res d = (Inr bk, res1, d1)"
proof -
  from assms(1) obtain n where n: "r ''book_name'' = Some n" "name_fits n"
    by (auto simp: name_storable_def split: option.splits)
  from assms(2) obtain p where p: "pages_column (pages_value (r ''pages'')) = Inr p"
    using accepted_Inr by (auto simp: pages_storable_def)
  show ?thesis
  proof (cases "find (\<lambda>b. b_name b = n \<and> b_author_id b = a_id a) (books d)")
    case None
    with n p assms(3) show ?thesis
      by (simp add: processRow_book_def Book_findOrCreate_def Let_def)
  next
    case (Some bk)
    have "truthy (r ''pages'') \<longrightarrow>
       (\<exists>k. pages_column (Some (parseInt10 (r ''pages''))) = Inr k)"
      using pages_storable_update[OF assms(2)] by simp
    with n Some show ?thesis
      by (auto simp: processRow_book_def Book_findOrCreate_def Let_def Book_update_pages_def)
  qed
qed

lemma processRow_try_storable:
  assumes s: "row_storable r" and i: "ids_available d"
  shows "\<exists>s b res1 d1. processRow_try r res d = processRow_inventory r s b res1 d1"
proof -
  from s have sn: "name_storable (r ''store_name'')" "address_storable r" "logo_storable r"
    and an: "name_storable (r ''author_name'')"
    and bn: "name_storable (r ''book_name'')" "pages_storable r"
    by (simp_all add: row_storable_def)
  from i have seqs: "integer_fits (store_seq d)" "integer_fits (author_seq d)"
    "integer_fits (book_seq d)"
    by (simp_all add: ids_available_def)
  from processRow_store_ok[of r d res, OF sn seqs(1)] obtain s res1 d1 where
    1: "processRow_store r res d = (Inr s, res1, d1)" by blast
  from processRow_store_frame[OF 1] seqs have seqs1: "integer_fits (author_seq d1)"
    "integer_fits (book_seq d1)" by simp_all
  from processRow_author_ok[of r d1 res1, OF an seqs1(1)] obtain a res2 d2 where
    2: "processRow_author r res1 d1 = (Inr a, res2, d2)" by blast
  from processRow_author_frame[OF 2] seqs1 have seqs2: "integer_fits (book_seq d2)" by simp
  from processRow_book_ok[of r d2 a res2, OF bn seqs2] obtain b res3 d3 where
    3: "processRow_book r a res2 d2 = (Inr b, res3, d3)" by blast
  from 1 2 3 show ?thesis by (auto simp: processRow_try_def)
qed

lemma processRow_inventory_bad_price:
  "isNaN (parseFloat (r ''price'')) \<or> js_lt (parseFloat (r ''price'')) 0 \<Longrightarrow>
     processRow_inventory r s b res d
       = (Inl (Message (''Invalid price value: '' @ to_string (r ''price''))), res, d)"
  by (auto simp: processRow_inventory_def Let_def)

lemma processRow_try_bad_price:
  assumes "isNaN (parseFloat (r ''price'')) \<or> js_lt (parseFloat (r ''price'')) 0"
  shows "\<exists>e res1 d1. processRow_try r res d = (Inl e, res1, d1)
     \<and> (e = Message (''Invalid price value: '' @ to_string (r ''price''))
          \<or> e = PersistenceMessage)"
proof (cases "processRow_store r res d")
  case (fields x res1 d1)
  show ?thesis
  proof (cases x)
    case (Inl e)
    with fields processRow_store_Inl[of r res d e res1 d1] show ?thesis
      by (simp add: processRow_try_def)
  next
    case (Inr s)
    note 1 = fields[unfolded Inr]
    show ?thesis
    proof (cases "processRow_author r res1 d1")
      case (fields y res2 d2)
      show ?thesis
      proof (cases y)
        case (Inl e)
        with fields 1 processRow_author_Inl[of r res1 d1 e res2 d2] show ?thesis
          by (simp add: processRow_try_def)
      next
        case (Inr a)
        note 2 = fields[unfolded Inr]
        show ?thesis
        proof (cases "processRow_book r a res2 d2")
          case (fields z res3 d3)
          show ?thesis
          proof (cases z)
            case (Inl e)
            with fields 1 2 processRow_book_Inl[of r a res2 d2 e res3 d3] show ?thesis
              by (simp add: processRow_try_def)
          next
            case (Inr b)
            with fields 1 2 processRow_inventory_bad_price[of r s b res3 d3, OF assms]
            show ?thesis
              by (simp add: processRow_try_def)
          qed
        qed
      qed
    qed
  qed
qed

lemma rollback_tables:
  "stores (rollback d d1) = stores d \<and> authors (rollback d d1) = authors d
   \<and> books (rollback d d1) = books d \<and> store_books (rollback d d1) = store_books d"
  by (simp add: rollback_def)


text \<open>
  C1, amended: a row whose price reads as \<open>NaN\<close> or as a negative number is failed by
  \<^verbatim>\<open>processRow\<close>; the four tables are what they were before the row, and the loop of
  \<^verbatim>\<open>processCSV\<close> records the failure and goes on with the rest of the batch. The reason is
  \<^verbatim>\<open>Invalid price value: \<close> followed by the price field, or it is the error of the
  persistence layer, when one of the steps 1 to 3 fails before the price is looked at. It
  is the price message whenever the columns take the names, the address, the logo and the
  pages of the row and each sequence has an id left.
\<close>

theorem bad_price_row_fails:
  assumes "isNaN (parseFloat (r ''price'')) \<or> js_lt (parseFloat (r ''price'')) 0"
  shows "\<exists>e res1 d1. processRow r res d = (Inl e, res1, d1)
      \<and> stores d1 = stores d \<and> authors d1 = authors d \<and> books d1 = books d
      \<and> store_books d1 = store_books d
      \<and> processRows ((n, r) # rest) res d
          = processRows rest
              (res1\<lparr>errors := errors res1 @ [\<lparr>e_row = n, e_data = r, e_error = e\<rparr>]\<rparr>) d1
      \<and> (e = Message (''Invalid price value: '' @ to_string (r ''price''))
           \<or> e = PersistenceMessage)
      \<and> (row_storable r \<and> ids_available d
           \<longrightarrow> e = Message (''Invalid price value: '' @ to_string (r ''price'')))"
proof -
  from processRow_try_bad_price[of r res d, OF assms] obtain e res1 d1 where
    t: "processRow_try r res d = (Inl e, res1, d1)"
    and e: "e = Message (''Invalid price value: '' @ to_string (r ''price''))
          \<or> e = PersistenceMessage" by blast
  then have pr: "processRow r res d = (Inl e, res1, rollback d d1)"
    by (simp add: processRow_def)
  have reason: "e = Message (''Invalid price value: '' @ to_string (r ''price''))"
    if "row_storable r" "ids_available d"
  proof -
    from processRow_try_storable[of r d res, OF that] obtain s b res2 d2 where
      "processRow_try r res d = processRow_inventory r s b res2 d2" by blast
    with t processRow_inventory_bad_price[of r s b res2 d2, OF assms] show ?thesis by simp
  qed
  show ?thesis
    apply (rule exI[of _ e], rule exI[of _ res1], rule exI[of _ "rollback d d1"])
    using pr reason e by (simp add: rollback_tables)
qed

text \<open>
  The theorem at the example record with the price \<^verbatim>\<open>-1\<close>, as row 2 of an upload into
  empty tables: the row fails with \<^verbatim>\<open>Invalid price value: -1\<close> and the tables stay empty.
\<close>

theorem bad_price_row_fails_witness:
  "js_lt (parseFloat (mapValues_row (gatsby_priced ''-1'') ''price'')) 0
   \<and> row_storable (mapValues_row (gatsby_priced ''-1'')) \<and> ids_available empty_db
   \<and> (\<exists>res1 d1. processRow (mapValues_row (gatsby_priced ''-1'')) initial_results empty_db
          = (Inl (Message ''Invalid price value: -1''), res1, d1)
        \<and> stores d1 = [] \<and> authors d1 = [] \<and> books d1 = [] \<and> store_books d1 = []
        \<and> processRows [(2, mapValues_row (gatsby_priced ''-1''))] initial_results empty_db
            = (res1\<lparr>errors := errors res1 @
                 [\<lparr>e_row = 2, e_data = mapValues_row (gatsby_priced ''-1''),
                   e_error = Message ''Invalid price value: -1''\<rparr>]\<rparr>, d1))"
proof -
  let ?r = "mapValues_row (gatsby_priced ''-1'')"
  have neg: "js_lt (parseFloat (?r ''price'')) 0"
    by (simp add: gatsby_priced_def js_eval)
  have names: "name_storable (?r ''store_name'')" "name_storable (?r ''author_name'')"
    "name_storable (?r ''book_name'')"
    by (simp_all add: gatsby_priced_def js_eval name_storable_def name_fits_def blank_def
          text_fits_def)
  have rest: "address_storable ?r" "logo_storable ?r" "pages_storable ?r"
    by (simp_all add: gatsby_priced_def js_eval address_storable_def address_fits_def
          logo_storable_def logo_fits_def or_null_def pages_storable_def pages_value_def
          pages_column_def accepted_def int32_max_def)
  from names rest have storable: "row_storable ?r"
    by (simp add: row_storable_def)
  have ids: "ids_available empty_db"
    by (simp add: ids_available_def integer_fits_def int32_max_def empty_db_def)
  have price: "to_string (?r ''price'') = ''-1''"
    by (simp add: gatsby_priced_def js_eval)
  from bad_price_row_fails[of ?r initial_results empty_db 2 "[]"] neg
  obtain e res1 d1 where
    "processRow ?r initial_results empty_db = (Inl e, res1, d1)"
    "stores d1 = stores empty_db" "authors d1 = authors empty_db"
    "books d1 = books empty_db" "store_books d1 = store_books empty_db"
    "processRows ((2, ?r) # []) initial_results empty_db
       = processRows []
           (res1\<lparr>errors := errors res1 @ [\<lparr>e_row = 2, e_data = ?r, e_error = e\<rparr>]\<rparr>) d1"
    "row_storable ?r \<and> ids_available empty_db
       \<longrightarrow> e = Message (''Invalid price value: '' @ to_string (?r ''price''))"
    by blast
  with storable ids price neg show ?thesis
    by (auto simp: empty_db_def)
qed

text \<open>
  C1 as claimed does not hold: not every row with a negative price fails with a reason that
  mentions the price. The example record with the pages \<^verbatim>\<open>3000000000\<close> and the price \<^verbatim>\<open>-1\<close> is
  trimmed and passes \<^verbatim>\<open>validateRow\<close>; reconciled into empty tables it fails at step 3, where
  the pages do not fit the \<^verbatim>\<open>INTEGER\<close> column, with the error of the persistence layer. The
  price check of step 4 is never reached.
\<close>

theorem bad_price_reason_counterexample:
  "validateRow (mapValues_row (gatsby_paged ''3000000000'' ''-1'')) 2 = Valid
   \<and> js_lt (parseFloat (mapValues_row (gatsby_paged ''3000000000'' ''-1'') ''price'')) 0
   \<and> fst (processRow (mapValues_row (gatsby_paged ''3000000000'' ''-1''))
            initial_results empty_db) = Inl PersistenceMessage
   \<and> PersistenceMessage \<noteq> Message (''Invalid price value: ''
        @ to_string (mapValues_row (gatsby_paged ''3000000000'' ''-1'') ''price''))"
proof -
  let ?r = "mapValues_row (gatsby_paged ''3000000000'' ''-1'')"
  have valid: "validateRow ?r 2 = Valid"
    by (simp add: validateRow_def requiredFields_def gatsby_paged_def js_eval)
  have neg: "js_lt (parseFloat (?r ''price'')) 0"
    by (simp add: gatsby_paged_def js_eval)
  have fields: "?r ''store_name'' = Some ''BookWorld''" "?r ''store_address'' = Some []"
    "?r ''logo'' = Some []" "?r ''author_name'' = Some ''Fitzgerald''"
    "?r ''book_name'' = Some ''Gatsby''"
    "pages_value (?r ''pages'') = Some (Fin 3000000000)"
    by (simp_all add: gatsby_paged_def pages_value_def js_eval)
  have 1: "processRow_store ?r initial_results empty_db =
      (Inr \<lparr>s_id = 1, s_name = ''BookWorld'', s_address = None, s_logo = None\<rparr>,
       initial_results\<lparr>created_stores := 1\<rparr>,
       empty_db\<lparr>stores := [\<lparr>s_id = 1, s_name = ''BookWorld'', s_address = None,
                   s_logo = None\<rparr>], store_seq := 2\<rparr>)"
    by (simp add: processRow_store_def Store_findOrCreate_def Let_def fields or_null_def truthy_def
          name_fits_def blank_def is_ws_def text_fits_def address_fits_def logo_fits_def
          integer_fits_def int32_max_def empty_db_def initial_results_def)
  have 2: "processRow_author ?r (initial_results\<lparr>created_stores := 1\<rparr>)
       (empty_db\<lparr>stores := [\<lparr>s_id = 1, s_name = ''BookWorld'', s_address = None,
                   s_logo = None\<rparr>], store_seq := 2\<rparr>) =
      (Inr \<lparr>a_id = 1, a_name = ''Fitzgerald''\<rparr>,
       initial_results\<lparr>created_stores := 1, created_authors := 1\<rparr>,
       empty_db\<lparr>stores := [\<lparr>s_id = 1, s_name = ''BookWorld'', s_address = None,
                   s_logo = None\<rparr>], store_seq := 2,
                authors := [\<lparr>a_id = 1, a_name = ''Fitzgerald''\<rparr>], author_seq := 2\<rparr>)"
    by (simp add: processRow_author_def Author_findOrCreate_def Let_def fields
          name_fits_def blank_def is_ws_def text_fits_def
          integer_fits_def int32_max_def empty_db_def initial_results_def)
  have 3: "fst (processRow_book ?r \<lparr>a_id = 1, a_name = ''Fitzgerald''\<rparr>
       (initial_results\<lparr>created_stores := 1, created_authors := 1\<rparr>)
       (empty_db\<lparr>stores := [\<lparr>s_id = 1, s_name = ''BookWorld'', s_address = None,
                   s_logo = None\<rparr>], store_seq := 2,
                authors := [\<lparr>a_id = 1, a_name = ''Fitzgerald''\<rparr>], author_seq := 2\<rparr>))
      = Inl PersistenceMessage"
    by (simp add: processRow_book_def Book_findOrCreate_def Let_def fields
          name_fits_def blank_def is_ws_def text_fits_def pages_column_def
          integer_fits_def int32_max_def empty_db_def)
  from 3 obtain res3 d3 where
    "processRow_book ?r \<lparr>a_id = 1, a_name = ''Fitzgerald''\<rparr>
       (initial_results\<lparr>created_stores := 1, created_authors := 1\<rparr>)
       (empty_db\<lparr>stores := [\<lparr>s_id = 1, s_name = ''BookWorld'', s_address = None,
                   s_logo = None\<rparr>], store_seq := 2,
                authors := [\<lparr>a_id = 1, a_name = ''Fitzgerald''\<rparr>], author_seq := 2\<rparr>)
      = (Inl PersistenceMessage, res3, d3)"
    by (metis prod.collapse)
  then have "fst (processRow ?r initial_results empty_db) = Inl PersistenceMessage"
    by (simp add: processRow_def processRow_try_def 1 2 del: One_nat_def)
  with valid neg show ?thesis by simp
qed


subsection \<open>A row whose position exists\<close>





lemma round2_eval:
  assumes "of_int z \<le> r * 100 + 1 / 2" "r * 100 + 1 / 2 < of_int z + 1"
  shows "round2 r = of_int z / 100"
proof -
  from assms have "\<lfloor>r * 100 + 1 / 2\<rfloor> = z" by (rule floor_unique)
  then show ?thesis by (simp add: round2_def)
qed









subsection \<open>The same row again and again\<close>


lemma first_row:
  assumes "r ''store_name'' = Some sn" "name_fits sn" "r ''author_name'' = Some an"
    "name_fits an" "r ''book_name'' = Some bn" "name_fits bn"
    "address_storable r" "logo_storable r"
    "pages_column (pages_value (r ''pages'')) = Inr pg"
    "parseFloat (r ''price'') = Fin p" "0 \<le> p" "price_column (Fin p) = Inr (round2 p)"
  shows "processRow r res empty_db =
     (Inr (),
      res\<lparr>created_stores := created_stores res + 1, created_authors := created_authors res + 1,
          created_books := created_books res + 1,
          created_inventory := created_inventory res + 1\<rparr>,
      ingested sn (or_null (r ''store_address'')) (or_null (r ''logo'')) an bn pg (round2 p) 1)"
  using assms
  by (simp add: processRow_def processRow_try_def processRow_store_def Store_findOrCreate_def
        empty_db_def processRow_author_def Author_findOrCreate_def processRow_book_def
        Book_findOrCreate_def processRow_inventory_def Let_def isNaN_def js_lt_def
        StoreBook_findOne_def StoreBook_create_def ingested_def address_storable_def
        logo_storable_def integer_fits_def int32_max_def)















subsection \<open>The stores table\<close>

lemma stores_kept_refl: "stores_kept r ss ss"
  by (auto simp: stores_kept_def)

lemma processRow_store_stores:
  "processRow_store r res d = (x, res1, d1) \<Longrightarrow> stores_kept r (stores d) (stores d1)"
  by (auto simp: processRow_store_def Store_findOrCreate_def Let_def Store_update_logo_def
        Store_update_address_def stores_kept_def nth_append or_null_def
        split: option.splits if_splits sum.splits)

lemma processRow_try_stores:
  "processRow_try r res d = (x, res1, d1) \<Longrightarrow> stores_kept r (stores d) (stores d1)"
  unfolding processRow_try_def
  by (auto split: prod.splits sum.splits
        dest!: processRow_store_stores processRow_author_frame processRow_book_frame
               processRow_inventory_frame)

lemma processRow_stores:
  "processRow r res d = (x, res1, d1) \<Longrightarrow> stores_kept r (stores d) (stores d1)"
  unfolding processRow_def
  by (auto simp: rollback_tables stores_kept_refl split: prod.splits sum.splits
        dest!: processRow_try_stores)

text \<open>
  C10: whatever \<^verbatim>\<open>processRow\<close> does with a row, every store that was in the table is still
  at its place with its id and its name; its address is unchanged when the row has no or an
  empty address, and its logo is unchanged when the row has no or an empty logo. A store
  that the row adds has the address null when the row's address is empty, and the logo
  null when the row's logo is empty.
\<close>

theorem empty_address_logo_keep_store:
  assumes "processRow r res d = (x, res1, d1)"
  shows "length (stores d) \<le> length (stores d1)
     \<and> (\<forall>i < length (stores d).
           s_id (stores d1 ! i) = s_id (stores d ! i)
           \<and> s_name (stores d1 ! i) = s_name (stores d ! i)
           \<and> (\<not> truthy (r ''store_address'')
                \<longrightarrow> s_address (stores d1 ! i) = s_address (stores d ! i))
           \<and> (\<not> truthy (r ''logo'') \<longrightarrow> s_logo (stores d1 ! i) = s_logo (stores d ! i)))
     \<and> (\<forall>i. length (stores d) \<le> i \<and> i < length (stores d1) \<longrightarrow>
           (\<not> truthy (r ''store_address'') \<longrightarrow> s_address (stores d1 ! i) = None)
           \<and> (\<not> truthy (r ''logo'') \<longrightarrow> s_logo (stores d1 ! i) = None))"
  using processRow_stores [OF assms] unfolding stores_kept_def .

text \<open>
  The theorem at the example record, whose address and logo are empty: reconciled into the
  tables of a store with an address and a logo, it leaves both; reconciled into empty
  tables, it adds a store whose address and logo are null.
\<close>

theorem empty_address_logo_keep_store_witness:
  "\<not> truthy (gatsby ''store_address'') \<and> \<not> truthy (gatsby ''logo'')
   \<and> (\<exists>x res1 d1. processRow gatsby initial_results addressed_store = (x, res1, d1)
        \<and> s_address (stores d1 ! 0) = Some ''1 Main St''
        \<and> s_logo (stores d1 ! 0) = Some ''logo.png'')
   \<and> (\<exists>x res1 d1. processRow gatsby initial_results empty_db = (x, res1, d1)
        \<and> length (stores d1) = 1
        \<and> s_address (stores d1 ! 0) = None \<and> s_logo (stores d1 ! 0) = None)"
proof -
  have empty: "\<not> truthy (gatsby ''store_address'')" "\<not> truthy (gatsby ''logo'')"
    by (simp_all add: gatsby_def gatsby_priced_def truthy_def)
  obtain x res1 d1 where 1: "processRow gatsby initial_results addressed_store = (x, res1, d1)"
    by (cases "processRow gatsby initial_results addressed_store") auto
  from empty_address_logo_keep_store[OF 1] empty
  have "s_address (stores d1 ! 0) = s_address (stores addressed_store ! 0)"
    "s_logo (stores d1 ! 0) = s_logo (stores addressed_store ! 0)"
    by (simp_all add: addressed_store_def)
  with 1 have a: "\<exists>x res1 d1. processRow gatsby initial_results addressed_store = (x, res1, d1)
        \<and> s_address (stores d1 ! 0) = Some ''1 Main St''
        \<and> s_logo (stores d1 ! 0) = Some ''logo.png''"
    by (simp add: addressed_store_def)
  have names: "gatsby ''store_name'' = Some ''BookWorld''" "name_fits ''BookWorld''"
    "gatsby ''author_name'' = Some ''Fitzgerald''" "name_fits ''Fitzgerald''"
    "gatsby ''book_name'' = Some ''Gatsby''" "name_fits ''Gatsby''"
    by (simp_all add: gatsby_def gatsby_priced_def name_fits_def blank_def is_ws_def
          text_fits_def)
  have texts: "address_storable gatsby" "logo_storable gatsby"
    by (simp_all add: address_storable_def address_fits_def logo_storable_def logo_fits_def
          or_null_def truthy_def gatsby_def gatsby_priced_def)
  have round: "round2 (1599 / 100) = 1599 / 100"
    using round2_eval[of 1599 "1599 / 100"] by simp
  have nums: "pages_column (pages_value (gatsby ''pages'')) = Inr (Some 180)"
    "parseFloat (gatsby ''price'') = Fin (1599 / 100)" "(0::rat) \<le> 1599 / 100"
    "price_column (Fin (1599 / 100)) = Inr (round2 (1599 / 100))"
    by (simp_all add: gatsby_def gatsby_priced_def pages_value_def pages_column_def
          int32_max_def price_column_def round js_eval)
  note 2 = first_row[of gatsby "''BookWorld''" "''Fitzgerald''" "''Gatsby''" "Some 180"
      "1599 / 100" initial_results, OF names texts nums]
  from empty_address_logo_keep_store[OF 2] empty
  have "s_address (stores (ingested ''BookWorld'' (or_null (gatsby ''store_address''))
            (or_null (gatsby ''logo'')) ''Fitzgerald'' ''Gatsby'' (Some 180)
            (round2 (1599 / 100)) 1) ! 0)
          = None"
    "s_logo (stores (ingested ''BookWorld'' (or_null (gatsby ''store_address''))
            (or_null (gatsby ''logo'')) ''Fitzgerald'' ''Gatsby'' (Some 180)
            (round2 (1599 / 100)) 1) ! 0)
          = None"
    by (simp_all add: empty_db_def ingested_def)
  with 2 have b: "\<exists>x res1 d1. processRow gatsby initial_results empty_db = (x, res1, d1)
        \<and> length (stores d1) = 1
        \<and> s_address (stores d1 ! 0) = None \<and> s_logo (stores d1 ! 0) = None"
    by (simp add: ingested_def)
  from empty a b show ?thesis by blast
qed


section \<open>Properties of the upload route\<close>

text \<open>
  C5: the response reports failure exactly when no row was processed and the error list is
  not empty. When at least one row was processed it reports success with status 200, and
  the results, with the errors they list, are in the response either way.
\<close>

theorem upload_response_success:
  "(\<not> success (upload_response res) \<longleftrightarrow> processed res = 0 \<and> errors res \<noteq> [])
   \<and> (0 < processed res \<longrightarrow>
        success (upload_response res) \<and> status (upload_response res) = 200
        \<and> errors (body_results (upload_response res)) = errors res)
   \<and> status (upload_response res) = (if success (upload_response res) then 200 else 400)
   \<and> body_results (upload_response res) = res"
  by (simp add: upload_response_def Let_def)

text \<open>
  The theorem at a result with one processed row and one failed row: the response is a
  success and carries the error.
\<close>

theorem upload_response_success_witness:
  "0 < processed (initial_results\<lparr>processed := 1, errors :=
         [\<lparr>e_row = 3, e_data = gatsby_priced ''-1'',
           e_error = Message ''Invalid price value: -1''\<rparr>]\<rparr>)
   \<and> success (upload_response (initial_results\<lparr>processed := 1, errors :=
         [\<lparr>e_row = 3, e_data = gatsby_priced ''-1'',
           e_error = Message ''Invalid price value: -1''\<rparr>]\<rparr>))
   \<and> status (upload_response (initial_results\<lparr>processed := 1, errors :=
         [\<lparr>e_row = 3, e_data = gatsby_priced ''-1'',
           e_error = Message ''Invalid price value: -1''\<rparr>]\<rparr>)) = 200
   \<and> length (errors (body_results (upload_response (initial_results\<lparr>processed := 1, errors :=
         [\<lparr>e_row = 3, e_data = gatsby_priced ''-1'',
           e_error = Message ''Invalid price value: -1''\<rparr>]\<rparr>)))) = 1"
proof -
  let ?res = "initial_results\<lparr>processed := 1, errors :=
         [\<lparr>e_row = 3, e_data = gatsby_priced ''-1'',
           e_error = Message ''Invalid price value: -1''\<rparr>]\<rparr>"
  have p: "0 < processed ?res" by simp
  from upload_response_success[of ?res] p
  have "success (upload_response ?res)" "status (upload_response ?res) = 200"
    "errors (body_results (upload_response ?res)) = errors ?res"
    by blast+
  with p show ?thesis by simp
qed


section \<open>Properties of the report\<close>

lemma order_by_exists: "\<exists>xs. order_by price_desc rows xs"
proof -
  have "sorted (map (\<lambda>sb. - sb_price sb) (sort_key (\<lambda>sb. - sb_price sb) rows))"
    by (rule sorted_sort_key)
  then have "sorted_wrt price_desc (sort_key (\<lambda>sb. - sb_price sb) rows)"
    by (simp add: sorted_map price_desc_def[abs_def])
  then have "order_by price_desc rows (sort_key (\<lambda>sb. - sb_price sb) rows)"
    by (simp add: order_by_def)
  then show ?thesis ..
qed

lemma those_Some: "those xs = Some ys \<Longrightarrow> xs = map Some ys"
  by (induction xs arbitrary: ys) (auto split: option.splits)

lemma book_entry_of_price: "book_entry_of d sb = Some e \<Longrightarrow> be_price e = sb_price sb"
  by (auto simp: book_entry_of_def split: option.splits)

lemma entries_prices:
  "map Some entries = map (book_entry_of d) ps \<Longrightarrow> map be_price entries = map sb_price ps"
proof (induction ps arbitrary: entries)
  case Nil
  then show ?case by simp
next
  case (Cons p ps)
  then obtain e es where "entries = e # es" by (cases entries) auto
  with Cons show ?case by (auto simp: book_entry_of_price)
qed

lemma order_by_take:
  assumes "order_by ahead rows xs"
  shows "length (take k xs) = min k (length rows)"
    and "mset (take k xs) \<subseteq># mset rows"
    and "sorted_wrt ahead (take k xs)"
    and "\<forall>y \<in># mset rows - mset (take k xs). \<forall>x \<in> set (take k xs). ahead x y"
proof -
  from assms have m: "mset xs = mset rows" and s: "sorted_wrt ahead xs"
    by (simp_all add: order_by_def)
  from m have "length xs = length rows" by (rule mset_eq_length)
  then show "length (take k xs) = min k (length rows)" by (simp add: min.commute)
  have split: "mset rows = mset (take k xs) + mset (drop k xs)"
    by (simp add: m[symmetric] flip: mset_append)
  then show "mset (take k xs) \<subseteq># mset rows" by simp
  from s show "sorted_wrt ahead (take k xs)" by (rule sorted_wrt_take)
  from s have "sorted_wrt ahead (take k xs @ drop k xs)" by simp
  then have "\<forall>x \<in> set (take k xs). \<forall>y \<in> set (drop k xs). ahead x y"
    unfolding sorted_wrt_append by blast
  then show "\<forall>y \<in># mset rows - mset (take k xs). \<forall>x \<in> set (take k xs). ahead x y"
    by (auto simp: split)
qed

text \<open>
  C7, as the code has it: \<^verbatim>\<open>getTopPriciestBooks\<close> always has an answer, and every answer
  without a \<^verbatim>\<open>TypeError\<close> lists the entries of at most five inventory positions; each is a
  position of the store in question that is not sold out, no position is listed twice, the
  prices fall (weakly) along the list, and no position of the store that is left out and
  not sold out has a higher price than a listed one. The order among positions of equal
  price is the database's choice.
\<close>

theorem getTopPriciestBooks_answer:
  "(\<exists>out. getTopPriciestBooks d storeId out)
   \<and> (\<forall>entries. getTopPriciestBooks d storeId (Some entries) \<longrightarrow>
        (\<exists>ps. map Some entries = map (book_entry_of d) ps
           \<and> length ps = min 5 (length (filter (available_in storeId) (store_books d)))
           \<and> mset ps \<subseteq># mset (filter (available_in storeId) (store_books d))
           \<and> (\<forall>sb \<in> set ps. sb \<in> set (store_books d) \<and> sb_store_id sb = storeId
                \<and> \<not> sb_sold_out sb)
           \<and> sorted_wrt (\<lambda>x y. sb_price y \<le> sb_price x) ps
           \<and> sorted_wrt (\<lambda>x y. be_price y \<le> be_price x) entries
           \<and> (\<forall>sb \<in># mset (filter (available_in storeId) (store_books d)) - mset ps.
                \<forall>p \<in> set ps. sb_price sb \<le> sb_price p)))"
proof (intro conjI allI impI)
  from order_by_exists obtain xs where
    "order_by price_desc (filter (available_in storeId) (store_books d)) xs" by blast
  then have "getTopPriciestBooks d storeId (those (map (book_entry_of d) (take 5 xs)))"
    unfolding getTopPriciestBooks_def StoreBook_findAll_def by blast
  then show "\<exists>out. getTopPriciestBooks d storeId out" ..
next
  fix entries
  let ?rows = "filter (available_in storeId) (store_books d)"
  assume "getTopPriciestBooks d storeId (Some entries)"
  then obtain xs where ob: "order_by price_desc ?rows xs"
    and out: "Some entries = those (map (book_entry_of d) (take 5 xs))"
    unfolding getTopPriciestBooks_def StoreBook_findAll_def by blast
  let ?ps = "take 5 xs"
  from out have e: "map Some entries = map (book_entry_of d) ?ps"
    by (simp add: those_Some[symmetric])
  note t = order_by_take[OF ob, of 5]
  from t(2) have sub: "set ?ps \<subseteq> set ?rows"
    using set_mset_mono[of "mset ?ps" "mset ?rows"] by simp
  have mem: "\<forall>sb \<in> set ?ps. sb \<in> set (store_books d) \<and> sb_store_id sb = storeId
      \<and> \<not> sb_sold_out sb"
    using sub by (auto simp: available_in_def)
  from t(3) have sp: "sorted_wrt (\<lambda>x y. sb_price y \<le> sb_price x) ?ps"
    by (simp add: price_desc_def[abs_def])
  then have "sorted_wrt (\<lambda>x y. y \<le> x) (map sb_price ?ps)"
    by (simp add: sorted_wrt_map)
  then have "sorted_wrt (\<lambda>x y. y \<le> x) (map be_price entries)"
    by (simp add: entries_prices[OF e])
  then have se: "sorted_wrt (\<lambda>x y. be_price y \<le> be_price x) entries"
    by (simp add: sorted_wrt_map)
  from t(4) have top: "\<forall>sb \<in># mset ?rows - mset ?ps. \<forall>p \<in> set ?ps. sb_price sb \<le> sb_price p"
    by (simp add: price_desc_def)
  from e t(1) t(2) mem sp se top
  show "\<exists>ps. map Some entries = map (book_entry_of d) ps
           \<and> length ps = min 5 (length ?rows)
           \<and> mset ps \<subseteq># mset ?rows
           \<and> (\<forall>sb \<in> set ps. sb \<in> set (store_books d) \<and> sb_store_id sb = storeId
                \<and> \<not> sb_sold_out sb)
           \<and> sorted_wrt (\<lambda>x y. sb_price y \<le> sb_price x) ps
           \<and> sorted_wrt (\<lambda>x y. be_price y \<le> be_price x) entries
           \<and> (\<forall>sb \<in># mset ?rows - mset ps. \<forall>p \<in> set ps. sb_price sb \<le> sb_price p)"
    by blast
qed

text \<open>The example tables, evaluated: the positions of store 1 and the entries of the books.\<close>

lemma priced_stock_available:
  "filter (available_in 1) (store_books priced_stock) =
     [\<lparr>sb_store_id = 1, sb_book_id = 1, sb_price = 999 / 100, sb_copies = 1, sb_sold_out = False\<rparr>,
      \<lparr>sb_store_id = 1, sb_book_id = 2, sb_price = 25, sb_copies = 2, sb_sold_out = False\<rparr>,
      \<lparr>sb_store_id = 1, sb_book_id = 3, sb_price = 25, sb_copies = 2, sb_sold_out = False\<rparr>]"
  by (simp add: priced_stock_def stock_def available_in_def)

lemma priced_stock_entries:
  "book_entry_of priced_stock
     \<lparr>sb_store_id = 1, sb_book_id = 1, sb_price = 999 / 100, sb_copies = 1, sb_sold_out = False\<rparr>
     = Some entry_one"
  "book_entry_of priced_stock
     \<lparr>sb_store_id = 1, sb_book_id = 2, sb_price = 25, sb_copies = 2, sb_sold_out = False\<rparr>
     = Some entry_two"
  "book_entry_of priced_stock
     \<lparr>sb_store_id = 1, sb_book_id = 3, sb_price = 25, sb_copies = 2, sb_sold_out = False\<rparr>
     = Some entry_three"
  by (simp_all add: book_entry_of_def priced_stock_def stock_def entry_one_def entry_two_def
        entry_three_def)

lemma priced_stock_answer_insertion:
  "getTopPriciestBooks priced_stock 1 (Some [entry_two, entry_three, entry_one])"
  unfolding getTopPriciestBooks_def StoreBook_findAll_def order_by_def priced_stock_available
  apply (rule exI[of _
    "[\<lparr>sb_store_id = 1, sb_book_id = 2, sb_price = 25, sb_copies = 2, sb_sold_out = False\<rparr>,
      \<lparr>sb_store_id = 1, sb_book_id = 3, sb_price = 25, sb_copies = 2, sb_sold_out = False\<rparr>,
      \<lparr>sb_store_id = 1, sb_book_id = 1, sb_price = 999 / 100, sb_copies = 1, sb_sold_out = False\<rparr>]"])
  apply (rule conjI)
   apply (rule exI[of _
    "[\<lparr>sb_store_id = 1, sb_book_id = 2, sb_price = 25, sb_copies = 2, sb_sold_out = False\<rparr>,
      \<lparr>sb_store_id = 1, sb_book_id = 3, sb_price = 25, sb_copies = 2, sb_sold_out = False\<rparr>,
      \<lparr>sb_store_id = 1, sb_book_id = 1, sb_price = 999 / 100, sb_copies = 1, sb_sold_out = False\<rparr>]"])
   apply (simp add: price_desc_def)
  apply (simp add: priced_stock_entries del: One_nat_def)
  done

text \<open>
  The theorem at the example tables and the answer that lists the books Two, Three and
  One: three positions, the prices 25, 25 and 9.99.
\<close>

theorem getTopPriciestBooks_answer_witness:
  "getTopPriciestBooks priced_stock 1 (Some [entry_two, entry_three, entry_one])
   \<and> (\<exists>ps. map Some [entry_two, entry_three, entry_one] = map (book_entry_of priced_stock) ps
         \<and> length ps = 3
         \<and> sorted_wrt (\<lambda>x y. sb_price y \<le> sb_price x) ps
         \<and> sorted_wrt (\<lambda>x y. be_price y \<le> be_price x) [entry_two, entry_three, entry_one])"
proof -
  note a = priced_stock_answer_insertion
  from getTopPriciestBooks_answer[of priced_stock 1] a
  obtain ps where
    "map Some [entry_two, entry_three, entry_one] = map (book_entry_of priced_stock) ps"
    "length ps = min 5 (length (filter (available_in 1) (store_books priced_stock)))"
    "sorted_wrt (\<lambda>x y. sb_price y \<le> sb_price x) ps"
    "sorted_wrt (\<lambda>x y. be_price y \<le> be_price x) [entry_two, entry_three, entry_one]"
    by blast
  with a show ?thesis
    unfolding priced_stock_available by auto
qed

text \<open>
  The claim as written breaks ties by insertion order. In the example tables the books Two
  and Three have the price 25 and Two was inserted first; the answer that lists Three
  before Two is one the query may give, and it is not the insertion order.
\<close>

theorem getTopPriciestBooks_tie_counterexample:
  "getTopPriciestBooks priced_stock 1 (Some [entry_three, entry_two, entry_one])
   \<and> those (map (book_entry_of priced_stock) (insertion_order_priciest priced_stock 1))
       = Some [entry_two, entry_three, entry_one]
   \<and> [entry_three, entry_two, entry_one] \<noteq> [entry_two, entry_three, entry_one]"
proof (intro conjI)
  show "getTopPriciestBooks priced_stock 1 (Some [entry_three, entry_two, entry_one])"
    unfolding getTopPriciestBooks_def StoreBook_findAll_def order_by_def priced_stock_available
    apply (rule exI[of _
      "[\<lparr>sb_store_id = 1, sb_book_id = 3, sb_price = 25, sb_copies = 2, sb_sold_out = False\<rparr>,
        \<lparr>sb_store_id = 1, sb_book_id = 2, sb_price = 25, sb_copies = 2, sb_sold_out = False\<rparr>,
        \<lparr>sb_store_id = 1, sb_book_id = 1, sb_price = 999 / 100, sb_copies = 1, sb_sold_out = False\<rparr>]"])
    apply (rule conjI)
     apply (rule exI[of _
      "[\<lparr>sb_store_id = 1, sb_book_id = 3, sb_price = 25, sb_copies = 2, sb_sold_out = False\<rparr>,
        \<lparr>sb_store_id = 1, sb_book_id = 2, sb_price = 25, sb_copies = 2, sb_sold_out = False\<rparr>,
        \<lparr>sb_store_id = 1, sb_book_id = 1, sb_price = 999 / 100, sb_copies = 1, sb_sold_out = False\<rparr>]"])
     apply (simp add: price_desc_def)
    apply (simp add: priced_stock_entries del: One_nat_def)
    done
  show "those (map (book_entry_of priced_stock) (insertion_order_priciest priced_stock 1))
       = Some [entry_two, entry_three, entry_one]"
    unfolding insertion_order_priciest_def priced_stock_available
    by (simp add: priced_stock_entries del: One_nat_def)
  show "[entry_three, entry_two, entry_one] \<noteq> [entry_two, entry_three, entry_one]"
    by (simp add: entry_two_def entry_three_def)
qed

subsection \<open>The prolific authors\<close>

lemma prolific_join_set:
  "(a, b, sb) \<in> set (prolific_join d storeId) \<longleftrightarrow>
     a \<in> set (authors d) \<and> b \<in> set (books d) \<and> b_author_id b = a_id a
     \<and> sb \<in> set (store_books d) \<and> sb_book_id sb = b_id b \<and> available_in storeId sb"
  by (auto simp: prolific_join_def)

lemma author_positions_set:
  "sb \<in> set (author_positions d storeId i) \<longleftrightarrow>
     sb \<in> set (store_books d) \<and> available_in storeId sb
     \<and> (\<exists>b \<in> set (books d). b_id b = sb_book_id sb \<and> b_author_id b = i)"
  by (auto simp: author_positions_def)

lemma prolific_keys:
  "set (map (\<lambda>(a, b, sb). (a_id a, a_name a)) (prolific_join d storeId)) =
     {(a_id a, a_name a) | a. a \<in> set (authors d) \<and> author_positions d storeId (a_id a) \<noteq> []}"
proof -
  have ne: "author_positions d storeId i \<noteq> [] \<longleftrightarrow>
      (\<exists>sb. sb \<in> set (author_positions d storeId i))" for i
    by (cases "author_positions d storeId i") auto
  show ?thesis
  proof (intro set_eqI iffI)
    fix k
    assume "k \<in> set (map (\<lambda>(a, b, sb). (a_id a, a_name a)) (prolific_join d storeId))"
    then obtain a b sb where j: "(a, b, sb) \<in> set (prolific_join d storeId)"
      and k: "k = (a_id a, a_name a)" by auto
    from j have "a \<in> set (authors d)" "sb \<in> set (author_positions d storeId (a_id a))"
      unfolding prolific_join_set author_positions_set by auto
    with k show "k \<in> {(a_id a, a_name a) | a.
        a \<in> set (authors d) \<and> author_positions d storeId (a_id a) \<noteq> []}"
      unfolding ne by blast
  next
    fix k
    assume "k \<in> {(a_id a, a_name a) | a.
        a \<in> set (authors d) \<and> author_positions d storeId (a_id a) \<noteq> []}"
    then obtain a sb where a: "a \<in> set (authors d)" and k: "k = (a_id a, a_name a)"
      and sb: "sb \<in> set (author_positions d storeId (a_id a))"
      unfolding ne by blast
    from sb obtain b where "b \<in> set (books d)" "b_id b = sb_book_id sb"
      "b_author_id b = a_id a" "sb \<in> set (store_books d)" "available_in storeId sb"
      unfolding author_positions_set by blast
    with a have "(a, b, sb) \<in> set (prolific_join d storeId)"
      unfolding prolific_join_set by simp
    with k show "k \<in> set (map (\<lambda>(a, b, sb). (a_id a, a_name a)) (prolific_join d storeId))"
      by force
  qed
qed

lemma group_book_ids:
  assumes "a \<in> set (authors d)"
  shows "set (map (\<lambda>(a, b, sb). sb_book_id sb)
            (group_rows (prolific_join d storeId) (a_id a, a_name a)))
         = sb_book_id ` set (author_positions d storeId (a_id a))"
  using assms
  by (force simp: group_rows_def prolific_join_set author_positions_set image_iff)


text \<open>The sum of the copies over the rows of one group, loop by loop.\<close>

lemma copies_over_positions:
  "sum_list (map (\<lambda>x. sb_copies (snd (snd x)))
      [(a, b, sb). sb \<leftarrow> sbs, sb_book_id sb = b_id (b :: book), available_in storeId sb])
   = sum_list (map (\<lambda>sb. if sb_book_id sb = b_id b \<and> available_in storeId sb
                          then sb_copies sb else 0) sbs)"
  by (induction sbs) auto

lemma copies_over_books:
  "sum_list (map (\<lambda>x. sb_copies (snd (snd x)))
      [(a, b, sb). b \<leftarrow> (bs :: book list), b_author_id b = a_id (a :: author),
                   sb \<leftarrow> sbs, sb_book_id sb = b_id b, available_in storeId sb])
   = sum_list (map (\<lambda>b. if b_author_id b = a_id a
                   then sum_list (map (\<lambda>sb. if sb_book_id sb = b_id b \<and> available_in storeId sb
                                            then sb_copies sb else 0) sbs)
                   else 0) bs)"
proof (induction bs)
  case Nil
  then show ?case by simp
next
  case (Cons b bs)
  show ?case
    using Cons by (simp add: copies_over_positions)
qed

lemma rows_of_author:
  "filter (\<lambda>x. (a_id (fst x), a_name (fst x)) = k)
      [(a, b, sb). b \<leftarrow> (bs :: book list), b_author_id b = a_id (a :: author),
                   sb \<leftarrow> (sbs :: store_book list), sb_book_id sb = b_id b,
                   available_in storeId sb]
   = (if (a_id a, a_name a) = k
      then [(a, b, sb). b \<leftarrow> bs, b_author_id b = a_id a,
                        sb \<leftarrow> sbs, sb_book_id sb = b_id b, available_in storeId sb]
      else [])"
  by (auto simp: filter_empty_conv intro!: filter_True)

lemma copies_over_authors:
  "sum_list (map (\<lambda>x. sb_copies (snd (snd x)))
      (filter (\<lambda>x. (a_id (fst x), a_name (fst x)) = k)
         [(a, b, sb). a \<leftarrow> (as :: author list), b \<leftarrow> (bs :: book list),
                      b_author_id b = a_id a,
                      sb \<leftarrow> sbs, sb_book_id sb = b_id b, available_in storeId sb]))
   = sum_list (map (\<lambda>a. if (a_id a, a_name a) = k
        then sum_list (map (\<lambda>b. if b_author_id b = a_id a
                        then sum_list (map (\<lambda>sb. if sb_book_id sb = b_id b \<and> available_in storeId sb
                                                 then sb_copies sb else 0) sbs)
                        else 0) bs)
        else 0) as)"
proof (induction as)
  case Nil
  then show ?case by simp
next
  case (Cons a as)
  have "sum_list (map (\<lambda>x. sb_copies (snd (snd x)))
      (filter (\<lambda>x. (a_id (fst x), a_name (fst x)) = k)
         [(a, b, sb). b \<leftarrow> bs, b_author_id b = a_id a,
                      sb \<leftarrow> sbs, sb_book_id sb = b_id b, available_in storeId sb]))
     = (if (a_id a, a_name a) = k
        then sum_list (map (\<lambda>b. if b_author_id b = a_id a
                        then sum_list (map (\<lambda>sb. if sb_book_id sb = b_id b \<and> available_in storeId sb
                                                 then sb_copies sb else 0) sbs)
                        else 0) bs)
        else 0)"
    unfolding rows_of_author copies_over_books[symmetric] by simp
  with Cons show ?case by simp
qed

lemma group_copies:
  "sum_list (map (\<lambda>(a, b, sb). sb_copies sb) (group_rows (prolific_join d storeId) k))
   = sum_list (map (\<lambda>a. if (a_id a, a_name a) = k
        then sum_list (map (\<lambda>b. if b_author_id b = a_id a
                        then sum_list (map (\<lambda>sb. if sb_book_id sb = b_id b \<and> available_in storeId sb
                                                 then sb_copies sb else 0) (store_books d))
                        else 0) (books d))
        else 0) (authors d))"
  unfolding copies_over_authors[symmetric] group_rows_def prolific_join_def
  by (simp add: case_prod_unfold)

lemma sum_list_none:
  fixes g :: "'a \<Rightarrow> nat"
  shows "\<forall>y \<in> set zs. \<not> P y \<Longrightarrow> sum_list (map (\<lambda>y. if P y then g y else 0) zs) = 0"
  by (induction zs) simp_all

lemma sum_list_single:
  fixes g :: "'a \<Rightarrow> nat"
  assumes "distinct xs" "x \<in> set xs" "P x" "\<forall>y \<in> set xs. y \<noteq> x \<longrightarrow> \<not> P y"
  shows "sum_list (map (\<lambda>y. if P y then g y else 0) xs) = g x"
  using assms
proof (induction xs)
  case Nil
  then show ?case by simp
next
  case (Cons z zs)
  show ?case
  proof (cases "z = x")
    case True
    from Cons.prems(1) True have "x \<notin> set zs" by simp
    with Cons.prems(4) have "\<forall>y \<in> set zs. \<not> P y" by fastforce
    then have "sum_list (map (\<lambda>y. if P y then g y else 0) zs) = 0"
      by (rule sum_list_none)
    with True Cons.prems(3) show ?thesis by simp
  next
    case False
    with Cons.prems have z: "\<not> P z" and x: "x \<in> set zs" by simp_all
    from Cons.prems have "distinct zs" "\<forall>y \<in> set zs. y \<noteq> x \<longrightarrow> \<not> P y" by simp_all
    from Cons.IH[OF this(1) x Cons.prems(3) this(2)] z show ?thesis by simp
  qed
qed
lemma copies_by_book:
  assumes "distinct (map b_id bs)"
  shows "sum_list (map (\<lambda>b. if b_author_id b = i
            then sum_list (map (\<lambda>sb. if sb_book_id sb = b_id b \<and> available_in storeId sb
                                     then sb_copies sb else 0) sbs)
            else 0) bs)
     = sum_list (map (\<lambda>sb. if available_in storeId sb
                              \<and> (\<exists>b \<in> set bs. b_id b = sb_book_id sb \<and> b_author_id b = i)
                            then sb_copies sb else 0) sbs)"
  using assms
proof (induction bs)
  case Nil
  then show ?case by simp
next
  case (Cons b bs)
  then have fresh: "b_id b \<notin> b_id ` set bs" and d: "distinct (map b_id bs)" by simp_all
  have split: "(if available_in storeId sb
          \<and> (\<exists>c \<in> set (b # bs). b_id c = sb_book_id sb \<and> b_author_id c = i)
        then sb_copies sb else 0)
      = (if b_author_id b = i \<and> sb_book_id sb = b_id b \<and> available_in storeId sb
         then sb_copies sb else 0)
        + (if available_in storeId sb
              \<and> (\<exists>c \<in> set bs. b_id c = sb_book_id sb \<and> b_author_id c = i)
           then sb_copies sb else 0)" for sb
    using fresh by (auto simp: image_iff)
  have one: "sum_list (map (\<lambda>sb. if b_author_id b = i \<and> sb_book_id sb = b_id b
                                  \<and> available_in storeId sb then sb_copies sb else 0) sbs)
      = (if b_author_id b = i
         then sum_list (map (\<lambda>sb. if sb_book_id sb = b_id b \<and> available_in storeId sb
                                  then sb_copies sb else 0) sbs)
         else 0)"
    by (induction sbs) auto
  have "sum_list (map (\<lambda>sb. if available_in storeId sb
              \<and> (\<exists>c \<in> set (b # bs). b_id c = sb_book_id sb \<and> b_author_id c = i)
            then sb_copies sb else 0) sbs)
      = sum_list (map (\<lambda>sb.
          (if b_author_id b = i \<and> sb_book_id sb = b_id b \<and> available_in storeId sb
           then sb_copies sb else 0)
          + (if available_in storeId sb
                \<and> (\<exists>c \<in> set bs. b_id c = sb_book_id sb \<and> b_author_id c = i)
             then sb_copies sb else 0)) sbs)"
    by (simp only: split)
  also have "\<dots> = sum_list (map (\<lambda>sb. if b_author_id b = i \<and> sb_book_id sb = b_id b
                                  \<and> available_in storeId sb then sb_copies sb else 0) sbs)
      + sum_list (map (\<lambda>sb. if available_in storeId sb
                \<and> (\<exists>c \<in> set bs. b_id c = sb_book_id sb \<and> b_author_id c = i)
             then sb_copies sb else 0) sbs)"
    by (rule sum_list_addf)
  finally show ?case
    using Cons.IH[OF d] one by simp
qed

lemma group_total_copies:
  assumes "unique_ids d" "a \<in> set (authors d)"
  shows "sum_list (map (\<lambda>(a, b, sb). sb_copies sb)
           (group_rows (prolific_join d storeId) (a_id a, a_name a)))
         = sum_list (map sb_copies (author_positions d storeId (a_id a)))"
proof -
  from assms(1) have da: "distinct (map a_id (authors d))" and db: "distinct (map b_id (books d))"
    by (simp_all add: unique_ids_def)
  from da have dist: "distinct (authors d)" by (simp add: distinct_map)
  have uniq: "\<forall>y \<in> set (authors d).
      y \<noteq> a \<longrightarrow> (a_id y, a_name y) \<noteq> (a_id a, a_name a)"
  proof (intro ballI impI notI)
    fix y assume y: "y \<in> set (authors d)" "y \<noteq> a" "(a_id y, a_name y) = (a_id a, a_name a)"
    from da have "inj_on a_id (set (authors d))" by (simp add: distinct_map)
    from inj_onD[OF this _ y(1) assms(2)] y(3) have "y = a" by simp
    with y(2) show False by simp
  qed
  have "sum_list (map (\<lambda>(a, b, sb). sb_copies sb)
           (group_rows (prolific_join d storeId) (a_id a, a_name a)))
      = sum_list (map (\<lambda>b. if b_author_id b = a_id a
            then sum_list (map (\<lambda>sb. if sb_book_id sb = b_id b \<and> available_in storeId sb
                                     then sb_copies sb else 0) (store_books d))
            else 0) (books d))"
    unfolding group_copies
    by (rule sum_list_single[OF dist assms(2) _ uniq]) simp
  also have "\<dots> = sum_list (map (\<lambda>sb. if available_in storeId sb
                  \<and> (\<exists>b \<in> set (books d). b_id b = sb_book_id sb \<and> b_author_id b = a_id a)
                then sb_copies sb else 0) (store_books d))"
    by (rule copies_by_book[OF db])
  also have "\<dots> = sum_list (map sb_copies (author_positions d storeId (a_id a)))"
    by (simp add: author_positions_def sum_list_map_filter')
  finally show ?thesis .
qed

lemma prolific_order_exists: "\<exists>gs. order_by prolific_desc groups gs"
proof -
  let ?key = "\<lambda>g. (g_book_count g, g_total_copies g)"
  let ?gs = "rev (sort_key ?key groups)"
  have "sorted (map ?key (sort_key ?key groups))" by (rule sorted_sort_key)
  then have "sorted_wrt (\<lambda>x y. ?key x \<le> ?key y) (sort_key ?key groups)"
    by (simp add: sorted_map)
  then have "sorted_wrt (\<lambda>x y. ?key y \<le> ?key x) ?gs"
    by (simp add: sorted_wrt_rev)
  moreover have "(?key y \<le> ?key x) = prolific_desc x y" for x y
    by (auto simp: prolific_desc_def less_eq_prod_def)
  ultimately have "sorted_wrt prolific_desc ?gs" by simp
  then have "order_by prolific_desc groups ?gs" by (simp add: order_by_def)
  then show ?thesis ..
qed

lemma prolific_groups_keys:
  "map (\<lambda>g. (g_id g, g_name g)) (prolific_groups d storeId)
     = remdups (map (\<lambda>(a, b, sb). (a_id a, a_name a)) (prolific_join d storeId))"
  by (simp add: prolific_groups_def Let_def o_def)

lemma prolific_groups_member:
  assumes "g \<in> set (prolific_groups d storeId)"
  shows "\<exists>a \<in> set (authors d). g_id g = a_id a \<and> g_name g = a_name a
     \<and> g_book_count g = card (sb_book_id ` set (author_positions d storeId (a_id a)))
     \<and> (unique_ids d \<longrightarrow>
          g_total_copies g = sum_list (map sb_copies (author_positions d storeId (a_id a))))"
proof -
  let ?joined = "prolific_join d storeId"
  define F where "F = (\<lambda>k. \<lparr>g_id = fst k, g_name = snd k,
        g_book_count = length (remdups (map (\<lambda>(a, b, sb). sb_book_id sb) (group_rows ?joined k))),
        g_total_copies = sum_list (map (\<lambda>(a, b, sb). sb_copies sb) (group_rows ?joined k))\<rparr>)"
  have "set (prolific_groups d storeId)
      = F ` set (map (\<lambda>(a, b, sb). (a_id a, a_name a)) ?joined)"
    unfolding F_def prolific_groups_def Let_def set_map set_remdups ..
  with assms obtain k where
    k: "k \<in> set (map (\<lambda>(a, b, sb). (a_id a, a_name a)) ?joined)"
    and "g = F k"
    by blast
  then have g: "g = \<lparr>g_id = fst k, g_name = snd k,
        g_book_count = length (remdups (map (\<lambda>(a, b, sb). sb_book_id sb) (group_rows ?joined k))),
        g_total_copies = sum_list (map (\<lambda>(a, b, sb). sb_copies sb) (group_rows ?joined k))\<rparr>"
    by (simp add: F_def)
  from k obtain a where a: "a \<in> set (authors d)" and ka: "k = (a_id a, a_name a)"
    unfolding prolific_keys by blast
  have count: "g_book_count g = card (sb_book_id ` set (author_positions d storeId (a_id a)))"
    unfolding g ka by (simp add: length_remdups_card_conv group_book_ids[OF a] del: set_map)
  have total: "g_total_copies g = sum_list (map sb_copies (author_positions d storeId (a_id a)))"
    if "unique_ids d"
    unfolding g ka by (simp add: group_total_copies[OF that a])
  from a g ka count total show ?thesis by auto
qed

text \<open>
  C6: \<^verbatim>\<open>getTopProlificAuthors\<close> always has an answer, and every answer is the first five
  (or fewer) entries of a ranking in which each author with at least one book among the
  store's positions that are not sold out stands exactly once, and nobody else; the
  ranking falls by the count of distinct books and, among equal counts, by the sum of the
  copies; each entry carries the author's name, the number of distinct books among those
  positions, and (the ids of authors and books being unique) the sum of their copies.
\<close>

theorem getTopProlificAuthors_answer:
  "(\<exists>out. getTopProlificAuthors d storeId out)
   \<and> (\<forall>out. getTopProlificAuthors d storeId out \<longrightarrow>
        (\<exists>gs. out = map author_entry_of (take 5 gs) \<and> length out \<le> 5
           \<and> distinct (map (\<lambda>g. (g_id g, g_name g)) gs)
           \<and> set (map (\<lambda>g. (g_id g, g_name g)) gs)
               = {(a_id a, a_name a) | a.
                    a \<in> set (authors d) \<and> author_positions d storeId (a_id a) \<noteq> []}
           \<and> sorted_wrt (\<lambda>x y. g_book_count y < g_book_count x
                  \<or> (g_book_count y = g_book_count x \<and> g_total_copies y \<le> g_total_copies x)) gs
           \<and> (\<forall>g \<in> set gs.
                 g_book_count g = card (sb_book_id ` set (author_positions d storeId (g_id g)))
                 \<and> (unique_ids d \<longrightarrow>
                      g_total_copies g
                        = sum_list (map sb_copies (author_positions d storeId (g_id g)))))))"
proof (intro conjI allI impI)
  from prolific_order_exists obtain gs where
    "order_by prolific_desc (prolific_groups d storeId) gs" by blast
  then have "getTopProlificAuthors d storeId (map author_entry_of (take 5 gs))"
    unfolding getTopProlificAuthors_def by blast
  then show "\<exists>out. getTopProlificAuthors d storeId out" ..
next
  fix out
  assume "getTopProlificAuthors d storeId out"
  then obtain gs where m: "mset gs = mset (prolific_groups d storeId)"
    and s: "sorted_wrt prolific_desc gs" and out: "out = map author_entry_of (take 5 gs)"
    unfolding getTopProlificAuthors_def order_by_def by blast
  let ?key = "\<lambda>g. (g_id g, g_name g)"
  from m have mk: "mset (map ?key gs) = mset (map ?key (prolific_groups d storeId))"
    by (metis mset_map)
  have "distinct (map ?key (prolific_groups d storeId))"
    unfolding prolific_groups_keys by simp
  with mk have dist: "distinct (map ?key gs)"
    by (metis mset_eq_imp_distinct_iff)
  from mk have "set (map ?key gs) = set (map ?key (prolific_groups d storeId))"
    by (rule mset_eq_setD)
  then have keys: "set (map ?key gs) = {(a_id a, a_name a) | a.
        a \<in> set (authors d) \<and> author_positions d storeId (a_id a) \<noteq> []}"
    unfolding prolific_groups_keys set_remdups prolific_keys .
  from s have sorted: "sorted_wrt (\<lambda>x y. g_book_count y < g_book_count x
        \<or> (g_book_count y = g_book_count x \<and> g_total_copies y \<le> g_total_copies x)) gs"
    by (simp add: prolific_desc_def[abs_def])
  from m have "set gs = set (prolific_groups d storeId)" by (rule mset_eq_setD)
  then have each: "\<forall>g \<in> set gs.
        g_book_count g = card (sb_book_id ` set (author_positions d storeId (g_id g)))
        \<and> (unique_ids d \<longrightarrow>
             g_total_copies g = sum_list (map sb_copies (author_positions d storeId (g_id g))))"
    using prolific_groups_member[of _ d storeId] by fastforce
  from out have "length out \<le> 5" by simp
  with out dist keys sorted each
  show "\<exists>gs. out = map author_entry_of (take 5 gs) \<and> length out \<le> 5
           \<and> distinct (map (\<lambda>g. (g_id g, g_name g)) gs)
           \<and> set (map (\<lambda>g. (g_id g, g_name g)) gs)
               = {(a_id a, a_name a) | a.
                    a \<in> set (authors d) \<and> author_positions d storeId (a_id a) \<noteq> []}
           \<and> sorted_wrt (\<lambda>x y. g_book_count y < g_book_count x
                  \<or> (g_book_count y = g_book_count x \<and> g_total_copies y \<le> g_total_copies x)) gs
           \<and> (\<forall>g \<in> set gs.
                 g_book_count g = card (sb_book_id ` set (author_positions d storeId (g_id g)))
                 \<and> (unique_ids d \<longrightarrow>
                      g_total_copies g
                        = sum_list (map sb_copies (author_positions d storeId (g_id g)))))"
    by blast
qed

text \<open>The example tables, evaluated: the groups of store 1.\<close>

lemma prolific_stock_groups:
  "prolific_groups prolific_stock 1 =
     [\<lparr>g_id = 1, g_name = ''A'', g_book_count = 2, g_total_copies = 3\<rparr>,
      \<lparr>g_id = 2, g_name = ''B'', g_book_count = 2, g_total_copies = 5\<rparr>]"
  by (simp add: prolific_groups_def prolific_join_def group_rows_def prolific_stock_def
        stock_def available_in_def Let_def)

lemma prolific_stock_answer:
  "getTopProlificAuthors prolific_stock 1
     [\<lparr>ae_name = ''B'', ae_bookCount = 2, ae_totalCopies = 5\<rparr>,
      \<lparr>ae_name = ''A'', ae_bookCount = 2, ae_totalCopies = 3\<rparr>]"
  unfolding getTopProlificAuthors_def order_by_def prolific_stock_groups
  by (rule exI[of _
       "[\<lparr>g_id = 2, g_name = ''B'', g_book_count = 2, g_total_copies = 5\<rparr>,
         \<lparr>g_id = 1, g_name = ''A'', g_book_count = 2, g_total_copies = 3\<rparr>]"])
     (simp add: prolific_desc_def author_entry_of_def add_mset_commute)

text \<open>
  The theorem at the example tables, where the authors A and B have two books each in
  store 1, A with 3 copies in all and B with 5: the answer that ranks B before A.
\<close>

theorem getTopProlificAuthors_answer_witness:
  "unique_ids prolific_stock
   \<and> getTopProlificAuthors prolific_stock 1
       [\<lparr>ae_name = ''B'', ae_bookCount = 2, ae_totalCopies = 5\<rparr>,
        \<lparr>ae_name = ''A'', ae_bookCount = 2, ae_totalCopies = 3\<rparr>]
   \<and> (\<exists>gs. [\<lparr>ae_name = ''B'', ae_bookCount = 2, ae_totalCopies = 5\<rparr>,
              \<lparr>ae_name = ''A'', ae_bookCount = 2, ae_totalCopies = 3\<rparr>]
             = map author_entry_of (take 5 gs)
         \<and> distinct (map (\<lambda>g. (g_id g, g_name g)) gs)
         \<and> sorted_wrt (\<lambda>x y. g_book_count y < g_book_count x
               \<or> (g_book_count y = g_book_count x \<and> g_total_copies y \<le> g_total_copies x)) gs)"
proof -
  have u: "unique_ids prolific_stock"
    by (simp add: unique_ids_def prolific_stock_def stock_def)
  note a = prolific_stock_answer
  note t = getTopProlificAuthors_answer[of prolific_stock 1, THEN conjunct2, rule_format, OF a]
  then obtain gs where g:
    "[\<lparr>ae_name = ''B'', ae_bookCount = 2, ae_totalCopies = 5\<rparr>,
      \<lparr>ae_name = ''A'', ae_bookCount = 2, ae_totalCopies = 3\<rparr>]
       = map author_entry_of (take 5 gs)"
    "distinct (map (\<lambda>g. (g_id g, g_name g)) gs)"
    "sorted_wrt (\<lambda>x y. g_book_count y < g_book_count x
        \<or> (g_book_count y = g_book_count x \<and> g_total_copies y \<le> g_total_copies x)) gs"
    by (elim exE conjE) (rule that)
  show ?thesis
    by (intro conjI exI[of _ gs]) (fact u a g)+
qed

end
